theory Spec2Isabelle
  imports Main "HOL-Library.Word"
begin

section \<open>The chttp2 write path: data model\<close>

text \<open>
  A shallow embedding of \<^verbatim>\<open>src/core/ext/transport/chttp2/transport/writing.c\<close>.
  A stream is addressed by its numeric id, unique within the connection, which stands
  for the C pointer \<^verbatim>\<open>grpc_chttp2_stream *\<close>; the transport owns the store of streams.
  The output buffer is kept as the sequence of frames that the encoders appended, so that
  what was emitted, for which stream and in which order can be read back. The byte-count
  statistics (\<^verbatim>\<open>s->stats.outgoing\<close>) and the trace logging are left out.
\<close>

type_synonym byte = "8 word"
type_synonym sid = nat
type_synonym grpc_closure = nat
type_synonym metadata_batch = "(string \<times> string) list"

datatype grpc_error = GRPC_ERROR_NONE | GRPC_ERROR string

datatype frame =
    SETTINGS nat
  | RAW "byte list"
  | HEADERS sid metadata_batch bool
  | WINDOW_UPDATE sid nat
  | DATA sid "byte list" bool
  | RST_STREAM sid nat

record write_cb =
  call_at_byte :: int
  closure :: grpc_closure

record stream =
  sent_initial_metadata :: bool
  send_initial_metadata :: "metadata_batch option"
  send_initial_metadata_finished :: "grpc_closure option"
  announce_window :: nat
  flow_controlled_buffer :: "byte list"
  outgoing_window :: int
  fetching_send_message :: "nat option"
  send_trailing_metadata :: "metadata_batch option"
  sent_trailing_metadata :: bool
  send_trailing_metadata_finished :: "grpc_closure option"
  read_closed :: bool
  write_closed :: bool
  sending_bytes :: nat
  flow_controlled_bytes_written :: int
  on_write_finished_cbs :: "write_cb list"
  refs :: int

record transport =
  is_client :: bool
  dirtied_local_settings :: bool
  sent_local_settings :: bool
  force_send_settings :: nat
  max_frame_size :: nat
  peer_header_table_size :: nat
  hpack_max_table_size :: nat
  t_outgoing_window :: int
  announce_incoming_window :: nat
  outbuf :: "frame list"
  qbuf :: "byte list list"
  stalled_by_transport :: "sid list"
  writable :: "sid list"
  writing :: "sid list"
  streams :: "sid \<Rightarrow> stream"
  write_cb_pool :: "write_cb list"
  completed :: "(grpc_closure \<times> grpc_error) list"

text \<open>
  \<^verbatim>\<open>max_frame_size\<close> is
  \<^verbatim>\<open>t->settings[GRPC_ACKED_SETTINGS][GRPC_CHTTP2_SETTINGS_MAX_FRAME_SIZE]\<close> and
  \<^verbatim>\<open>peer_header_table_size\<close> is
  \<^verbatim>\<open>t->settings[GRPC_PEER_SETTINGS][GRPC_CHTTP2_SETTINGS_HEADER_TABLE_SIZE]\<close>, both
  \<^verbatim>\<open>uint32_t\<close>. The two outgoing windows and \<^verbatim>\<open>flow_controlled_bytes_written\<close> are
  \<^verbatim>\<open>int64_t\<close>, \<^verbatim>\<open>sending_bytes\<close> is \<^verbatim>\<open>uint64_t\<close>. They are integers here and the
  conversions and the wrap-around of the C code are written out.
\<close>

subsection \<open>Machine integers\<close>

definition UINT32_MAX :: nat where
  "UINT32_MAX = 4294967295"

definition GRPC_CHTTP2_NO_ERROR :: nat where
  "GRPC_CHTTP2_NO_ERROR = 0"

definition u32 :: "int \<Rightarrow> nat" where
  \<comment> \<open>the cast \<^verbatim>\<open>(uint32_t)\<close>\<close>
  "u32 x = nat (x mod 4294967296)"

definition u64 :: "int \<Rightarrow> nat" where
  \<comment> \<open>arithmetic in \<^verbatim>\<open>uint64_t\<close>\<close>
  "u64 x = nat (x mod 18446744073709551616)"

definition s64 :: "int \<Rightarrow> int" where
  \<comment> \<open>arithmetic in \<^verbatim>\<open>int64_t\<close>, and the cast \<^verbatim>\<open>(int64_t)\<close>\<close>
  "s64 x = (x + 9223372036854775808) mod 18446744073709551616 - 9223372036854775808"

definition GPR_MIN :: "'a::linorder \<Rightarrow> 'a \<Rightarrow> 'a" where
  "GPR_MIN a b = (if a < b then a else b)"

subsection \<open>Collaborators of the write path\<close>

definition grpc_slice_buffer_add :: "transport \<Rightarrow> frame \<Rightarrow> transport" where
  "grpc_slice_buffer_add t f = t\<lparr>outbuf := outbuf t @ [f]\<rparr>"

text \<open>
  Modelled from the spec: the frame encoders \<^verbatim>\<open>grpc_chttp2_encode_header\<close>,
  \<^verbatim>\<open>grpc_chttp2_encode_data\<close>, \<^verbatim>\<open>grpc_chttp2_window_update_create\<close>,
  \<^verbatim>\<open>grpc_chttp2_rst_stream_create\<close> and \<^verbatim>\<open>grpc_chttp2_settings_create\<close> are not part of
  the file; each appends its frame to the pass output buffer. Encoding DATA moves the
  first \<open>n\<close> bytes of the stream's buffer into the frame.
\<close>

definition grpc_chttp2_encode_header :: "sid \<Rightarrow> metadata_batch \<Rightarrow> bool \<Rightarrow> transport \<Rightarrow> transport" where
  "grpc_chttp2_encode_header s md is_eof t = grpc_slice_buffer_add t (HEADERS s md is_eof)"

definition grpc_chttp2_encode_data :: "sid \<Rightarrow> nat \<Rightarrow> bool \<Rightarrow> transport \<times> stream \<Rightarrow> transport \<times> stream" where
  "grpc_chttp2_encode_data s n is_last ts =
     (case ts of (t, str) \<Rightarrow>
        (grpc_slice_buffer_add t (DATA s (take n (flow_controlled_buffer str)) is_last),
         str\<lparr>flow_controlled_buffer := drop n (flow_controlled_buffer str)\<rparr>))"

text \<open>Modelled from the spec: \<^verbatim>\<open>grpc_metadata_batch_is_empty\<close>, true of a batch with no
  element.\<close>

definition grpc_metadata_batch_is_empty :: "metadata_batch \<Rightarrow> bool" where
  "grpc_metadata_batch_is_empty b = (b = [])"

text \<open>
  Modelled from the spec: the write-readiness queues (section 4.2). Adding a stream that
  is already on a list returns false and leaves the list as it is; a pop takes the head;
  \<^verbatim>\<open>grpc_chttp2_leave_writing_lists\<close> removes the stream from whichever lists it is on.
\<close>

definition stream_list_add :: "sid list \<Rightarrow> sid \<Rightarrow> sid list \<times> bool" where
  "stream_list_add xs s = (if s \<in> set xs then (xs, False) else (xs @ [s], True))"

definition grpc_chttp2_list_add_writable_stream :: "transport \<Rightarrow> sid \<Rightarrow> transport \<times> bool" where
  "grpc_chttp2_list_add_writable_stream t s =
     (case stream_list_add (writable t) s of (xs, b) \<Rightarrow> (t\<lparr>writable := xs\<rparr>, b))"

definition grpc_chttp2_list_add_writing_stream :: "transport \<Rightarrow> sid \<Rightarrow> transport \<times> bool" where
  "grpc_chttp2_list_add_writing_stream t s =
     (case stream_list_add (writing t) s of (xs, b) \<Rightarrow> (t\<lparr>writing := xs\<rparr>, b))"

definition grpc_chttp2_list_add_stalled_by_transport :: "transport \<Rightarrow> sid \<Rightarrow> transport" where
  "grpc_chttp2_list_add_stalled_by_transport t s =
     t\<lparr>stalled_by_transport := fst (stream_list_add (stalled_by_transport t) s)\<rparr>"

definition grpc_chttp2_leave_writing_lists :: "transport \<Rightarrow> sid \<Rightarrow> transport" where
  "grpc_chttp2_leave_writing_lists t s =
     t\<lparr>stalled_by_transport := removeAll s (stalled_by_transport t),
       writable := removeAll s (writable t),
       writing := removeAll s (writing t)\<rparr>"

text \<open>
  Modelled from the spec: the reference count of a stream (\<^verbatim>\<open>GRPC_CHTTP2_STREAM_REF\<close>,
  \<^verbatim>\<open>GRPC_CHTTP2_STREAM_UNREF\<close>), one count per acquire and per release.
\<close>

definition GRPC_CHTTP2_STREAM_REF :: "stream \<Rightarrow> stream" where
  "GRPC_CHTTP2_STREAM_REF str = str\<lparr>refs := refs str + 1\<rparr>"

definition GRPC_CHTTP2_STREAM_UNREF :: "stream \<Rightarrow> stream" where
  "GRPC_CHTTP2_STREAM_UNREF str = str\<lparr>refs := refs str - 1\<rparr>"

text \<open>
  Modelled from the spec: \<^verbatim>\<open>grpc_chttp2_become_writable\<close> puts the stream on the writable
  list; the list takes a reference when the stream was not on it.
\<close>

definition grpc_chttp2_become_writable :: "transport \<Rightarrow> sid \<Rightarrow> transport" where
  "grpc_chttp2_become_writable t s =
     (case grpc_chttp2_list_add_writable_stream t s of
        (t', added) \<Rightarrow>
          if added then t'\<lparr>streams := (streams t')(s := GRPC_CHTTP2_STREAM_REF (streams t' s))\<rparr>
          else t')"

text \<open>
  Modelled from the spec: \<^verbatim>\<open>grpc_chttp2_complete_closure_step\<close> fires the continuation
  with the outcome when one is pending; the transport records what fired, in order. The
  caller clears the pending closure.
\<close>

definition grpc_chttp2_complete_closure_step :: "transport \<Rightarrow> grpc_closure option \<Rightarrow> grpc_error \<Rightarrow> transport" where
  "grpc_chttp2_complete_closure_step t pclosure error =
     (case pclosure of
        None \<Rightarrow> t
      | Some c \<Rightarrow> t\<lparr>completed := completed t @ [(c, error)]\<rparr>)"

text \<open>
  Modelled from the spec: \<^verbatim>\<open>grpc_chttp2_mark_stream_closed\<close> closes the write side, and the
  read side too when asked.
\<close>

definition grpc_chttp2_mark_stream_closed :: "stream \<Rightarrow> bool \<Rightarrow> bool \<Rightarrow> stream" where
  "grpc_chttp2_mark_stream_closed str close_reads close_writes =
     str\<lparr>read_closed := (read_closed str \<or> close_reads),
         write_closed := (write_closed str \<or> close_writes)\<rparr>"

section \<open>The write-completion callback list\<close>

definition add_to_write_list :: "write_cb list \<Rightarrow> write_cb \<Rightarrow> write_cb list" where
  "add_to_write_list list cb = cb # list"

definition finish_write_cb :: "transport \<Rightarrow> write_cb \<Rightarrow> grpc_error \<Rightarrow> transport" where
  "finish_write_cb t cb error =
     (let t1 = grpc_chttp2_complete_closure_step t (Some (closure cb)) error
      in t1\<lparr>write_cb_pool := cb # write_cb_pool t1\<rparr>)"

text \<open>The \<^verbatim>\<open>while (cb)\<close> loop of \<^verbatim>\<open>update_list\<close>: \<open>written\<close> is the value of
  \<^verbatim>\<open>s->flow_controlled_bytes_written\<close> after the addition, \<open>list\<close> the list being
  rebuilt.\<close>

fun update_list_loop :: "grpc_error \<Rightarrow> int \<Rightarrow> write_cb list \<Rightarrow> transport \<times> write_cb list \<Rightarrow> transport \<times> write_cb list" where
  "update_list_loop error written [] acc = acc"
| "update_list_loop error written (cb # next) acc =
     (case acc of (t, list) \<Rightarrow>
        if call_at_byte cb \<le> written
        then update_list_loop error written next (finish_write_cb t cb error, list)
        else update_list_loop error written next (t, add_to_write_list list cb))"

text \<open>\<^verbatim>\<open>update_list\<close>, called on \<^verbatim>\<open>&s->on_write_finished_cbs\<close>: the list is read from and
  stored back into the stream.\<close>

definition update_list :: "transport \<times> stream \<Rightarrow> int \<Rightarrow> grpc_error \<Rightarrow> transport \<times> stream" where
  "update_list ts send_bytes error =
     (case ts of (t, str) \<Rightarrow>
        let cb = on_write_finished_cbs str;
            str1 = str\<lparr>on_write_finished_cbs := [],
                       flow_controlled_bytes_written := s64 (flow_controlled_bytes_written str + send_bytes)\<rparr>
        in case update_list_loop error (flow_controlled_bytes_written str1) cb (t, on_write_finished_cbs str1) of
             (t', list) \<Rightarrow> (t', str1\<lparr>on_write_finished_cbs := list\<rparr>))"

section \<open>begin write\<close>

text \<open>The state of one iteration of the loop over the writable streams: the transport,
  the stream that was popped, and the two locals of the loop body.\<close>

record iter =
  it_t :: transport
  it_s :: stream
  it_sent_initial_metadata :: bool
  it_now_writing :: bool

definition iter_start :: "transport \<Rightarrow> sid \<Rightarrow> iter" where
  "iter_start t s =
     \<lparr>it_t = t, it_s = streams t s,
      it_sent_initial_metadata = sent_initial_metadata (streams t s),
      it_now_writing = False\<rparr>"

text \<open>Lines 119 to 129: send initial metadata if it is available.\<close>

definition write_initial_metadata :: "sid \<Rightarrow> iter \<Rightarrow> iter" where
  "write_initial_metadata s it =
     (case send_initial_metadata (it_s it) of
        None \<Rightarrow> it
      | Some md \<Rightarrow>
          if \<not> it_sent_initial_metadata it then
            it\<lparr>it_t := grpc_chttp2_encode_header s md False (it_t it),
               it_s := (it_s it)\<lparr>send_initial_metadata := None, sent_initial_metadata := True\<rparr>,
               it_sent_initial_metadata := True,
               it_now_writing := True\<rparr>
          else it)"

text \<open>Lines 130 to 137: send any window updates.\<close>

definition write_window_update :: "sid \<Rightarrow> iter \<Rightarrow> iter" where
  "write_window_update s it =
     (if announce_window (it_s it) > 0 then
        let announce = announce_window (it_s it)
        in it\<lparr>it_t := grpc_slice_buffer_add (it_t it) (WINDOW_UPDATE s (announce_window (it_s it))),
              it_s := (it_s it)\<lparr>announce_window := announce_window (it_s it) - announce\<rparr>\<rparr>
      else it)"

text \<open>The synthetic reset after a terminal frame, lines 164 to 168 and 196 to 200.\<close>

definition write_rst_stream :: "sid \<Rightarrow> transport \<Rightarrow> stream \<Rightarrow> transport" where
  "write_rst_stream s t str =
     (if \<not> is_client t \<and> \<not> read_closed str
      then grpc_slice_buffer_add t (RST_STREAM s GRPC_CHTTP2_NO_ERROR)
      else t)"

text \<open>Lines 139 to 180: send any body bytes, if allowed by flow control. The locals
  \<^verbatim>\<open>max_outgoing\<close>, \<^verbatim>\<open>send_bytes\<close>, \<^verbatim>\<open>is_last_data_frame\<close> and \<^verbatim>\<open>is_last_frame\<close> are
  computed from the transport and the stream as they are before the frame is encoded.
  The two \<^verbatim>\<open>GPR_MIN\<close> of \<^verbatim>\<open>max_outgoing\<close> compare in \<^verbatim>\<open>int64_t\<close> and the result is cast
  to \<^verbatim>\<open>uint32_t\<close>; the one of \<^verbatim>\<open>send_bytes\<close> compares in \<^verbatim>\<open>size_t\<close>.\<close>

definition max_outgoing :: "transport \<Rightarrow> stream \<Rightarrow> nat" where
  "max_outgoing t str =
     u32 (GPR_MIN (int (max_frame_size t))
            (GPR_MIN (outgoing_window str) (t_outgoing_window t)))"

definition send_bytes :: "transport \<Rightarrow> stream \<Rightarrow> nat" where
  "send_bytes t str =
     u32 (int (GPR_MIN (max_outgoing t str) (length (flow_controlled_buffer str))))"

definition is_last_data_frame :: "transport \<Rightarrow> stream \<Rightarrow> bool" where
  "is_last_data_frame t str =
     (fetching_send_message str = None \<and>
      send_bytes t str = length (flow_controlled_buffer str))"

definition is_last_frame :: "transport \<Rightarrow> stream \<Rightarrow> bool" where
  "is_last_frame t str =
     (is_last_data_frame t str \<and>
      (case send_trailing_metadata str of
         None \<Rightarrow> False
       | Some b \<Rightarrow> grpc_metadata_batch_is_empty b))"

definition write_body :: "sid \<Rightarrow> iter \<Rightarrow> iter" where
  "write_body s it =
     (if length (flow_controlled_buffer (it_s it)) > 0 then
        if max_outgoing (it_t it) (it_s it) > 0 then
          let n = send_bytes (it_t it) (it_s it);
              last = is_last_frame (it_t it) (it_s it);
              (t1, s1) = grpc_chttp2_encode_data s n last (it_t it, it_s it);
              s2 = s1\<lparr>outgoing_window := s64 (outgoing_window s1 - int n)\<rparr>;
              t2 = t1\<lparr>t_outgoing_window := s64 (t_outgoing_window t1 - int n)\<rparr>;
              (t3, s3) =
                (if last then
                   (write_rst_stream s t2 s2,
                    s2\<lparr>send_trailing_metadata := None, sent_trailing_metadata := True\<rparr>)
                 else (t2, s2));
              s4 = s3\<lparr>sending_bytes := u64 (int (sending_bytes s3) + int n)\<rparr>;
              (t5, s5) =
                (if length (flow_controlled_buffer s4) > 0 then
                   (fst (grpc_chttp2_list_add_writable_stream t3 s), GRPC_CHTTP2_STREAM_REF s4)
                 else (t3, s4))
          in it\<lparr>it_t := t5, it_s := s5, it_now_writing := True\<rparr>
        else if t_outgoing_window (it_t it) = 0 then
          it\<lparr>it_t := grpc_chttp2_list_add_stalled_by_transport (it_t it) s,
             it_now_writing := True\<rparr>
        else it
      else it)"

text \<open>Lines 181 to 202: the trailing metadata, once the buffer is empty and no more body
  is expected.\<close>

definition write_trailing_metadata :: "sid \<Rightarrow> iter \<Rightarrow> iter" where
  "write_trailing_metadata s it =
     (case send_trailing_metadata (it_s it) of
        None \<Rightarrow> it
      | Some b \<Rightarrow>
          if fetching_send_message (it_s it) = None \<and>
             length (flow_controlled_buffer (it_s it)) = 0 then
            let (t1, s1) =
                  (if grpc_metadata_batch_is_empty b
                   then grpc_chttp2_encode_data s 0 True (it_t it, it_s it)
                   else (grpc_chttp2_encode_header s b True (it_t it), it_s it));
                s2 = s1\<lparr>send_trailing_metadata := None, sent_trailing_metadata := True\<rparr>;
                t2 = write_rst_stream s t1 s2
            in it\<lparr>it_t := t2, it_s := s2, it_now_writing := True\<rparr>
          else it)"

text \<open>Lines 205 to 213: the stream goes onto the writing list, or gives up its reference.
  The stream is then stored back.\<close>

definition finish_iter :: "sid \<Rightarrow> iter \<Rightarrow> transport" where
  "finish_iter s it =
     (let (t1, s1) =
            (if it_now_writing it then
               (case grpc_chttp2_list_add_writing_stream (it_t it) s of
                  (t', added) \<Rightarrow>
                    if \<not> added then (t', GRPC_CHTTP2_STREAM_UNREF (it_s it))
                    else (t', it_s it))
             else (grpc_chttp2_leave_writing_lists (it_t it) s, GRPC_CHTTP2_STREAM_UNREF (it_s it)))
      in t1\<lparr>streams := (streams t1)(s := s1)\<rparr>)"

text \<open>The body of the loop at lines 110 to 214, for the stream \<open>s\<close> that was popped.\<close>

definition process_stream :: "transport \<Rightarrow> sid \<Rightarrow> transport" where
  "process_stream t s =
     (let it1 = write_initial_metadata s (iter_start t s);
          it2 = write_window_update s it1;
          it3 = (if it_sent_initial_metadata it2
                 then write_trailing_metadata s (write_body s it2)
                 else it2)
      in finish_iter s it3)"

text \<open>The loop at lines 110 to 214: pop a writable stream, frame its data, until the
  writable list is empty. A stream whose buffer was not drained is pushed back by the
  iteration itself and is popped again by this loop.\<close>

function begin_write_loop :: "transport \<Rightarrow> transport" where
  "begin_write_loop t =
     (case writable t of
        [] \<Rightarrow> t
      | s # rest \<Rightarrow> begin_write_loop (process_stream (t\<lparr>writable := rest\<rparr>) s))"
  by pat_completeness auto

text \<open>Lines 82 to 91: the local settings, when they changed.\<close>

definition write_settings :: "transport \<Rightarrow> transport" where
  "write_settings t =
     (if dirtied_local_settings t \<and> \<not> sent_local_settings t then
        (grpc_slice_buffer_add t (SETTINGS (force_send_settings t)))
          \<lparr>force_send_settings := 0, dirtied_local_settings := False, sent_local_settings := True\<rparr>
      else t)"

text \<open>Lines 93 to 95: \<^verbatim>\<open>grpc_slice_buffer_move_into(&t->qbuf, &t->outbuf)\<close>; the queued
  slices are opaque to the write path.\<close>

definition flush_qbuf :: "transport \<Rightarrow> transport" where
  "flush_qbuf t = t\<lparr>outbuf := outbuf t @ map RAW (qbuf t), qbuf := []\<rparr>"

text \<open>Lines 97 to 99.\<close>

definition set_max_table_size :: "transport \<Rightarrow> transport" where
  "set_max_table_size t = t\<lparr>hpack_max_table_size := peer_header_table_size t\<rparr>"

text \<open>Lines 101 to 106: every stream stalled by the transport becomes writable again. The
  first argument is the stalled list that remains to be popped.\<close>

fun pop_all_stalled :: "sid list \<Rightarrow> transport \<Rightarrow> transport" where
  "pop_all_stalled [] t = t\<lparr>stalled_by_transport := []\<rparr>"
| "pop_all_stalled (s # rest) t =
     pop_all_stalled rest (grpc_chttp2_become_writable (t\<lparr>stalled_by_transport := rest\<rparr>) s)"

definition unstall :: "transport \<Rightarrow> transport" where
  "unstall t =
     (if t_outgoing_window t > 0 then pop_all_stalled (stalled_by_transport t) t else t)"

text \<open>Lines 216 to 226: the transport level window update.\<close>

definition write_transport_window_update :: "transport \<Rightarrow> transport" where
  "write_transport_window_update t =
     (if announce_incoming_window t > 0 then
        let announced = u32 (int (GPR_MIN (announce_incoming_window t) UINT32_MAX))
        in grpc_slice_buffer_add
             (t\<lparr>announce_incoming_window := announce_incoming_window t - announced\<rparr>)
             (WINDOW_UPDATE 0 announced)
      else t)"

definition grpc_chttp2_begin_write :: "transport \<Rightarrow> bool \<times> transport" where
  "grpc_chttp2_begin_write t =
     (let t1 = write_settings t;
          t2 = flush_qbuf t1;
          t3 = set_max_table_size t2;
          t4 = unstall t3;
          t5 = begin_write_loop t4;
          t6 = write_transport_window_update t5
      in (length (outbuf t6) > 0, t6))"

section \<open>end write\<close>

text \<open>Lines 239 to 257: the body of the loop of \<^verbatim>\<open>grpc_chttp2_end_write\<close> for the stream
  \<open>s\<close> that was popped from the writing list.\<close>

definition finish_stream_write :: "grpc_error \<Rightarrow> transport \<Rightarrow> sid \<Rightarrow> transport" where
  "finish_stream_write error t s =
     (let s0 = streams t s;
          (t1, s1) =
            (if sent_initial_metadata s0 then
               (grpc_chttp2_complete_closure_step t (send_initial_metadata_finished s0) error,
                s0\<lparr>send_initial_metadata_finished := None\<rparr>)
             else (t, s0));
          (t2, s2) =
            (if sending_bytes s1 \<noteq> 0 then
               (case update_list (t1, s1) (s64 (int (sending_bytes s1))) error of
                  (t', s') \<Rightarrow> (t', s'\<lparr>sending_bytes := 0\<rparr>))
             else (t1, s1));
          (t3, s3) =
            (if sent_trailing_metadata s2 then
               (grpc_chttp2_complete_closure_step t2 (send_trailing_metadata_finished s2) error,
                grpc_chttp2_mark_stream_closed
                  (s2\<lparr>send_trailing_metadata_finished := None\<rparr>) (\<not> is_client t2) True)
             else (t2, s2));
          t4 = grpc_chttp2_leave_writing_lists t3 s;
          s4 = GRPC_CHTTP2_STREAM_UNREF s3
      in t4\<lparr>streams := (streams t4)(s := s4)\<rparr>)"

function end_write_loop :: "grpc_error \<Rightarrow> transport \<Rightarrow> transport" where
  "end_write_loop error t =
     (case writing t of
        [] \<Rightarrow> t
      | s # rest \<Rightarrow> end_write_loop error (finish_stream_write error (t\<lparr>writing := rest\<rparr>) s))"
  by pat_completeness auto

definition grpc_chttp2_end_write :: "transport \<Rightarrow> grpc_error \<Rightarrow> transport" where
  "grpc_chttp2_end_write t error = (end_write_loop error t)\<lparr>outbuf := []\<rparr>"

section \<open>Notions used to state the properties\<close>

text \<open>The measure of the loop over the writable streams: the bytes buffered by the streams
  on the writable list, plus the length of that list.\<close>

definition loop_measure :: "transport \<Rightarrow> nat" where
  "loop_measure t =
     sum_list (map (\<lambda>x. length (flow_controlled_buffer (streams t x))) (writable t)) +
     length (writable t)"

text \<open>
  What one iteration does, read off the stream as it is when it is popped: the frames of
  each block of the loop body, whether the body block sends, stalls or forks, the stream
  after each block, and whether the iteration sets \<^verbatim>\<open>now_writing\<close>.
\<close>

definition initial_metadata_frames :: "sid \<Rightarrow> stream \<Rightarrow> frame list" where
  "initial_metadata_frames s str =
     (case send_initial_metadata str of
        None \<Rightarrow> []
      | Some md \<Rightarrow> if sent_initial_metadata str then [] else [HEADERS s md False])"

definition window_update_frames :: "sid \<Rightarrow> stream \<Rightarrow> frame list" where
  "window_update_frames s str =
     (if announce_window str > 0 then [WINDOW_UPDATE s (announce_window str)] else [])"

definition rst_frames :: "sid \<Rightarrow> transport \<Rightarrow> stream \<Rightarrow> frame list" where
  "rst_frames s t str =
     (if \<not> is_client t \<and> \<not> read_closed str then [RST_STREAM s GRPC_CHTTP2_NO_ERROR] else [])"

definition sends :: "transport \<Rightarrow> stream \<Rightarrow> bool" where
  "sends t str = (flow_controlled_buffer str \<noteq> [] \<and> 0 < max_outgoing t str)"

definition stalls :: "transport \<Rightarrow> stream \<Rightarrow> bool" where
  "stalls t str =
     (flow_controlled_buffer str \<noteq> [] \<and> max_outgoing t str = 0 \<and> t_outgoing_window t = 0)"

definition forks :: "transport \<Rightarrow> stream \<Rightarrow> bool" where
  "forks t str = (sends t str \<and> send_bytes t str < length (flow_controlled_buffer str))"

definition body_frames :: "sid \<Rightarrow> transport \<Rightarrow> stream \<Rightarrow> frame list" where
  "body_frames s t str =
     (if sends t str then
        DATA s (take (send_bytes t str) (flow_controlled_buffer str)) (is_last_frame t str) #
        (if is_last_frame t str then rst_frames s t str else [])
      else [])"

definition sends_trailing :: "stream \<Rightarrow> bool" where
  "sends_trailing str =
     (send_trailing_metadata str \<noteq> None \<and> fetching_send_message str = None \<and>
      flow_controlled_buffer str = [])"

definition trailing_frames :: "sid \<Rightarrow> transport \<Rightarrow> stream \<Rightarrow> frame list" where
  "trailing_frames s t str =
     (case send_trailing_metadata str of
        None \<Rightarrow> []
      | Some b \<Rightarrow>
          if fetching_send_message str = None \<and> flow_controlled_buffer str = [] then
            (if grpc_metadata_batch_is_empty b then DATA s [] True else HEADERS s b True) #
            rst_frames s t str
          else [])"

definition sent_im :: "stream \<Rightarrow> bool" where
  "sent_im str = (sent_initial_metadata str \<or> send_initial_metadata str \<noteq> None)"

definition after_body :: "transport \<Rightarrow> stream \<Rightarrow> stream" where
  "after_body t str =
     (if sends t str then
        str\<lparr>flow_controlled_buffer := drop (send_bytes t str) (flow_controlled_buffer str),
            outgoing_window := s64 (outgoing_window str - int (send_bytes t str)),
            send_trailing_metadata :=
              (if is_last_frame t str then None else send_trailing_metadata str),
            sent_trailing_metadata := (is_last_frame t str \<or> sent_trailing_metadata str),
            sending_bytes := u64 (int (sending_bytes str) + int (send_bytes t str)),
            refs := (if forks t str then refs str + 1 else refs str)\<rparr>
      else str)"

definition pre_body :: "stream \<Rightarrow> stream" where
  "pre_body str =
     str\<lparr>send_initial_metadata :=
           (if sent_initial_metadata str then send_initial_metadata str else None),
         sent_initial_metadata := sent_im str,
         announce_window := 0\<rparr>"

definition after_trailing :: "stream \<Rightarrow> stream" where
  "after_trailing str =
     (if sends_trailing str
      then str\<lparr>send_trailing_metadata := None, sent_trailing_metadata := True\<rparr>
      else str)"

definition stream_after :: "transport \<Rightarrow> stream \<Rightarrow> stream" where
  "stream_after t str =
     (if sent_im str then after_trailing (after_body t (pre_body str)) else pre_body str)"

definition stream_frames :: "sid \<Rightarrow> transport \<Rightarrow> stream \<Rightarrow> frame list" where
  "stream_frames s t str =
     initial_metadata_frames s str @ window_update_frames s str @
     (if sent_im str then body_frames s t str @ trailing_frames s t (after_body t str) else [])"

definition marks_writing :: "transport \<Rightarrow> stream \<Rightarrow> bool" where
  "marks_writing t str =
     ((\<not> sent_initial_metadata str \<and> send_initial_metadata str \<noteq> None) \<or>
      (sent_im str \<and> (sends t str \<or> stalls t str \<or> sends_trailing (after_body t str))))"

definition sends_initial :: "iter \<Rightarrow> bool" where
  "sends_initial it = (\<not> it_sent_initial_metadata it \<and> send_initial_metadata (it_s it) \<noteq> None)"

text \<open>The callbacks that a drain fires: those whose threshold the confirmed total has
  reached; and what the transport records for the callbacks fired with an outcome.\<close>

definition due :: "int \<Rightarrow> write_cb \<Rightarrow> bool" where
  "due written cb = (call_at_byte cb \<le> written)"

definition fired_with :: "grpc_error \<Rightarrow> write_cb list \<Rightarrow> (grpc_closure \<times> grpc_error) list" where
  "fired_with error cbs = map (\<lambda>cb. (closure cb, error)) cbs"

text \<open>
  The frames a pass appends to the output buffer, the DATA payload they carry (in all and
  for one stream), and the range of a window that fits \<^verbatim>\<open>int64_t\<close> and is not negative.
\<close>

fun data_len :: "frame \<Rightarrow> nat" where
  "data_len (DATA s b l) = length b"
| "data_len _ = 0"

fun data_len_of :: "sid \<Rightarrow> frame \<Rightarrow> nat" where
  "data_len_of x (DATA s b l) = (if s = x then length b else 0)"
| "data_len_of x _ = 0"

definition data_bytes :: "frame list \<Rightarrow> nat" where
  "data_bytes fs = sum_list (map data_len fs)"

definition data_bytes_of :: "sid \<Rightarrow> frame list \<Rightarrow> nat" where
  "data_bytes_of x fs = sum_list (map (data_len_of x) fs)"

definition emitted :: "transport \<Rightarrow> transport \<Rightarrow> frame list" where
  "emitted t t' = drop (length (outbuf t)) (outbuf t')"

definition loop_frames :: "transport \<Rightarrow> frame list" where
  "loop_frames t = emitted t (begin_write_loop t)"

definition settings_frames :: "transport \<Rightarrow> frame list" where
  "settings_frames t =
     (if dirtied_local_settings t \<and> \<not> sent_local_settings t
      then [SETTINGS (force_send_settings t)] else [])"

definition transport_update_frames :: "transport \<Rightarrow> frame list" where
  "transport_update_frames t =
     (if announce_incoming_window t > 0
      then [WINDOW_UPDATE 0 (u32 (int (GPR_MIN (announce_incoming_window t) UINT32_MAX)))]
      else [])"

definition pre_loop :: "transport \<Rightarrow> transport" where
  "pre_loop t = unstall (set_max_table_size (flush_qbuf (write_settings t)))"

definition pass_frames :: "transport \<Rightarrow> frame list" where
  "pass_frames t = emitted t (snd (grpc_chttp2_begin_write t))"

definition fits_window :: "int \<Rightarrow> bool" where
  "fits_window w = (0 \<le> w \<and> w < 9223372036854775808)"

text \<open>
  What happens to a connection between its write passes, seen from the write path: a pass
  begins, a pass ends with an outcome, the peer credits a window, a stream is marked
  writable. Modelled from the spec: a credit adds to the window, in \<^verbatim>\<open>int64_t\<close>. A run
  applies a sequence of such events; its wire is what the passes of the run emitted, in
  order. A credit fits when the window it yields is still a non-negative \<^verbatim>\<open>int64_t\<close>.
\<close>

datatype event =
    Begin_write
  | End_write grpc_error
  | Credit_stream sid nat
  | Credit_transport nat
  | Become_writable sid

definition credit_stream :: "transport \<Rightarrow> sid \<Rightarrow> nat \<Rightarrow> transport" where
  "credit_stream t s n =
     t\<lparr>streams := (streams t)
          (s := (streams t s)\<lparr>outgoing_window := s64 (outgoing_window (streams t s) + int n)\<rparr>)\<rparr>"

definition credit_transport :: "transport \<Rightarrow> nat \<Rightarrow> transport" where
  "credit_transport t n = t\<lparr>t_outgoing_window := s64 (t_outgoing_window t + int n)\<rparr>"

fun apply_event :: "event \<Rightarrow> transport \<Rightarrow> transport" where
  "apply_event Begin_write t = snd (grpc_chttp2_begin_write t)"
| "apply_event (End_write error) t = grpc_chttp2_end_write t error"
| "apply_event (Credit_stream s n) t = credit_stream t s n"
| "apply_event (Credit_transport n) t = credit_transport t n"
| "apply_event (Become_writable s) t = grpc_chttp2_become_writable t s"

fun event_frames :: "event \<Rightarrow> transport \<Rightarrow> frame list" where
  "event_frames Begin_write t = pass_frames t"
| "event_frames _ t = []"

fun run :: "event list \<Rightarrow> transport \<Rightarrow> transport" where
  "run [] t = t"
| "run (e # es) t = run es (apply_event e t)"

fun wire :: "event list \<Rightarrow> transport \<Rightarrow> frame list" where
  "wire [] t = []"
| "wire (e # es) t = event_frames e t @ wire es (apply_event e t)"

fun credit_fits :: "event \<Rightarrow> transport \<Rightarrow> bool" where
  "credit_fits (Credit_stream s n) t = fits_window (outgoing_window (streams t s) + int n)"
| "credit_fits (Credit_transport n) t = fits_window (t_outgoing_window t + int n)"
| "credit_fits _ t = True"

fun credits_fit :: "event list \<Rightarrow> transport \<Rightarrow> bool" where
  "credits_fit [] t = True"
| "credits_fit (e # es) t = (credit_fits e t \<and> credits_fit es (apply_event e t))"

fun credit_of :: "event \<Rightarrow> nat" where
  "credit_of (Credit_transport n) = n"
| "credit_of _ = 0"

fun credit_to :: "sid \<Rightarrow> event \<Rightarrow> nat" where
  "credit_to x (Credit_stream s n) = (if s = x then n else 0)"
| "credit_to x _ = 0"

definition credited :: "event list \<Rightarrow> nat" where
  "credited es = sum_list (map credit_of es)"

definition credited_to :: "sid \<Rightarrow> event list \<Rightarrow> nat" where
  "credited_to x es = sum_list (map (credit_to x) es)"

text \<open>The fields of a stream that the end of a pass leaves alone.\<close>

definition send_state ::
  "stream \<Rightarrow> bool \<times> metadata_batch option \<times> nat \<times> byte list \<times> int \<times> nat option \<times>
    metadata_batch option \<times> bool" where
  "send_state str =
     (sent_initial_metadata str, send_initial_metadata str, announce_window str,
      flow_controlled_buffer str, outgoing_window str, fetching_send_message str,
      send_trailing_metadata str, sent_trailing_metadata str)"

text \<open>
  Reading the frames of a pass. \<open>ordered_for x sent fs\<close>: in \<open>fs\<close>, every DATA frame and
  every trailing HEADERS frame of stream \<open>x\<close> comes after an initial HEADERS frame of
  \<open>x\<close>, or \<open>sent\<close> holds from the start. A terminal frame carries the end of stream: a
  DATA frame marked last or a HEADERS frame marked end of stream. \<open>resets_ok c rc fs\<close>: in
  \<open>fs\<close>, a terminal frame of a stream whose read side is open (\<open>rc\<close> false) on a server
  (\<open>c\<close> false) is followed at once by the RST_STREAM of that stream, and no RST_STREAM
  stands anywhere else. \<open>pending\<close> is 1 while trailing metadata is queued.
\<close>

fun ordered_for :: "sid \<Rightarrow> bool \<Rightarrow> frame list \<Rightarrow> bool" where
  "ordered_for x sent [] = True"
| "ordered_for x sent (HEADERS s md eof # fs) =
     (if s = x then (if eof then sent \<and> ordered_for x sent fs else ordered_for x True fs)
      else ordered_for x sent fs)"
| "ordered_for x sent (DATA s b l # fs) =
     ((if s = x then sent else True) \<and> ordered_for x sent fs)"
| "ordered_for x sent (f # fs) = ordered_for x sent fs"

fun initial_sent_in :: "sid \<Rightarrow> frame list \<Rightarrow> bool" where
  "initial_sent_in x [] = False"
| "initial_sent_in x (HEADERS s md eof # fs) = ((s = x \<and> \<not> eof) \<or> initial_sent_in x fs)"
| "initial_sent_in x (f # fs) = initial_sent_in x fs"

fun is_terminal_for :: "sid \<Rightarrow> frame \<Rightarrow> bool" where
  "is_terminal_for x (HEADERS s md eof) = (s = x \<and> eof)"
| "is_terminal_for x (DATA s b l) = (s = x \<and> l)"
| "is_terminal_for x f = False"

definition terminal_count :: "sid \<Rightarrow> frame list \<Rightarrow> nat" where
  "terminal_count x fs = length (filter (is_terminal_for x) fs)"

fun terminal_stream :: "frame \<Rightarrow> sid option" where
  "terminal_stream (HEADERS s md eof) = (if eof then Some s else None)"
| "terminal_stream (DATA s b l) = (if l then Some s else None)"
| "terminal_stream f = None"

fun is_reset :: "frame \<Rightarrow> bool" where
  "is_reset (RST_STREAM s e) = True"
| "is_reset f = False"

fun resets_ok :: "bool \<Rightarrow> (sid \<Rightarrow> bool) \<Rightarrow> frame list \<Rightarrow> bool" where
  "resets_ok c rc [] = True"
| "resets_ok c rc (f # fs) =
     (case terminal_stream f of
        Some s \<Rightarrow>
          if \<not> c \<and> \<not> rc s then
            (case fs of
               [] \<Rightarrow> False
             | g # gs \<Rightarrow> g = RST_STREAM s GRPC_CHTTP2_NO_ERROR \<and> resets_ok c rc gs)
          else resets_ok c rc fs
      | None \<Rightarrow> \<not> is_reset f \<and> resets_ok c rc fs)"

definition pending :: "stream \<Rightarrow> nat" where
  "pending str = (if send_trailing_metadata str = None then 0 else 1)"

text \<open>A transport with nothing to do, and a stream with nothing to send.\<close>

definition idle_stream :: stream where
  "idle_stream =
     \<lparr>sent_initial_metadata = False, send_initial_metadata = None,
      send_initial_metadata_finished = None, announce_window = 0,
      flow_controlled_buffer = [], outgoing_window = 65535,
      fetching_send_message = None, send_trailing_metadata = None,
      sent_trailing_metadata = False, send_trailing_metadata_finished = None,
      read_closed = False, write_closed = False, sending_bytes = 0,
      flow_controlled_bytes_written = 0, on_write_finished_cbs = [], refs = 1\<rparr>"

definition idle_transport :: transport where
  "idle_transport =
     \<lparr>is_client = True, dirtied_local_settings = False, sent_local_settings = True,
      force_send_settings = 0, max_frame_size = 16384, peer_header_table_size = 4096,
      hpack_max_table_size = 4096, t_outgoing_window = 65535, announce_incoming_window = 0,
      outbuf = [], qbuf = [], stalled_by_transport = [], writable = [], writing = [],
      streams = (\<lambda>_. idle_stream), write_cb_pool = [], completed = []\<rparr>"

text \<open>
  The scenarios of the specification, each with one stream, number 3, on the writable
  list, and the state each is in after the pass. Scenario 1: initial metadata queued, 100
  bytes buffered, both windows 1000, no trailing metadata queued. Scenario 4: the same on
  a server, with an empty batch of trailing metadata queued and the read side open.
  Scenario 2: the transport window is 0 and 10 bytes are buffered. Then a stream that has
  only a window update to announce, and a stream with 100 bytes buffered whose own window
  is 10 (after the first iteration, and after the pass).
\<close>

definition scenario1 :: transport where
  "scenario1 = idle_transport
     \<lparr>t_outgoing_window := 1000, writable := [3],
      streams := (\<lambda>_. idle_stream)
        (3 := idle_stream\<lparr>send_initial_metadata := Some [(''path'', ''/'')],
                flow_controlled_buffer := replicate 100 0, outgoing_window := 1000, refs := 2\<rparr>)\<rparr>"

definition scenario4 :: transport where
  "scenario4 = idle_transport
     \<lparr>is_client := False, t_outgoing_window := 1000, writable := [3],
      streams := (\<lambda>_. idle_stream)
        (3 := idle_stream\<lparr>send_initial_metadata := Some [(''status'', ''200'')],
                flow_controlled_buffer := replicate 100 0, outgoing_window := 1000,
                send_trailing_metadata := Some [], refs := 2\<rparr>)\<rparr>"

definition scenario2 :: transport where
  "scenario2 = idle_transport
     \<lparr>t_outgoing_window := 0, writable := [3],
      streams := (\<lambda>_. idle_stream)
        (3 := idle_stream\<lparr>sent_initial_metadata := True,
                flow_controlled_buffer := replicate 10 0, outgoing_window := 1000, refs := 2\<rparr>)\<rparr>"

definition window_update_only :: transport where
  "window_update_only = idle_transport
     \<lparr>writable := [3],
      streams := (\<lambda>_. idle_stream)
        (3 := idle_stream\<lparr>sent_initial_metadata := True, announce_window := 5, refs := 2\<rparr>)\<rparr>"

definition stream_window_limited :: transport where
  "stream_window_limited = idle_transport
     \<lparr>t_outgoing_window := 1000, writable := [3],
      streams := (\<lambda>_. idle_stream)
        (3 := idle_stream\<lparr>sent_initial_metadata := True,
                flow_controlled_buffer := replicate 100 0, outgoing_window := 10, refs := 2\<rparr>)\<rparr>"

definition scenario1_done :: transport where
  "scenario1_done = scenario1
     \<lparr>outbuf := [HEADERS 3 [(''path'', ''/'')] False, DATA 3 (replicate 100 0) False],
      t_outgoing_window := 900, writable := [], writing := [3],
      streams := (\<lambda>_. idle_stream)
        (3 := idle_stream\<lparr>sent_initial_metadata := True, flow_controlled_buffer := [],
                outgoing_window := 900, sending_bytes := 100, refs := 2\<rparr>)\<rparr>"

definition scenario4_done :: transport where
  "scenario4_done = scenario4
     \<lparr>outbuf := [HEADERS 3 [(''status'', ''200'')] False, DATA 3 (replicate 100 0) True,
                 RST_STREAM 3 0],
      t_outgoing_window := 900, writable := [], writing := [3],
      streams := (\<lambda>_. idle_stream)
        (3 := idle_stream\<lparr>sent_initial_metadata := True, flow_controlled_buffer := [],
                outgoing_window := 900, sent_trailing_metadata := True,
                sending_bytes := 100, refs := 2\<rparr>)\<rparr>"

definition scenario2_done :: transport where
  "scenario2_done = scenario2\<lparr>stalled_by_transport := [3], writable := [], writing := [3]\<rparr>"

definition window_update_only_done :: transport where
  "window_update_only_done = window_update_only
     \<lparr>outbuf := [WINDOW_UPDATE 3 5], writable := [],
      streams := (\<lambda>_. idle_stream)
        (3 := idle_stream\<lparr>sent_initial_metadata := True, refs := 1\<rparr>)\<rparr>"

definition stream_window_limited_sent :: transport where
  "stream_window_limited_sent = stream_window_limited
     \<lparr>outbuf := [DATA 3 (replicate 10 0) False],
      t_outgoing_window := 990, writable := [3], writing := [3],
      streams := (\<lambda>_. idle_stream)
        (3 := idle_stream\<lparr>sent_initial_metadata := True,
                flow_controlled_buffer := replicate 90 0, outgoing_window := 0,
                sending_bytes := 10, refs := 3\<rparr>)\<rparr>"

definition stream_window_limited_done :: transport where
  "stream_window_limited_done = stream_window_limited_sent
     \<lparr>writable := [], writing := [],
      streams := (\<lambda>_. idle_stream)
        (3 := idle_stream\<lparr>sent_initial_metadata := True,
                flow_controlled_buffer := replicate 90 0, outgoing_window := 0,
                sending_bytes := 10, refs := 2\<rparr>)\<rparr>"

section \<open>The loops terminate\<close>


subsection \<open>Effect of the stages on the buffer, the store and the writable list\<close>

lemma write_initial_metadata_buffer:
  "flow_controlled_buffer (it_s (write_initial_metadata s it)) = flow_controlled_buffer (it_s it)"
  by (simp add: write_initial_metadata_def split: option.splits)

lemma write_initial_metadata_lists:
  "writable (it_t (write_initial_metadata s it)) = writable (it_t it)"
  "writing (it_t (write_initial_metadata s it)) = writing (it_t it)"
  "stalled_by_transport (it_t (write_initial_metadata s it)) = stalled_by_transport (it_t it)"
  "streams (it_t (write_initial_metadata s it)) = streams (it_t it)"
  by (simp_all add: write_initial_metadata_def grpc_chttp2_encode_header_def
      grpc_slice_buffer_add_def split: option.splits)

lemma write_window_update_buffer:
  "flow_controlled_buffer (it_s (write_window_update s it)) = flow_controlled_buffer (it_s it)"
  by (simp add: write_window_update_def Let_def)

lemma write_window_update_lists:
  "writable (it_t (write_window_update s it)) = writable (it_t it)"
  "writing (it_t (write_window_update s it)) = writing (it_t it)"
  "stalled_by_transport (it_t (write_window_update s it)) = stalled_by_transport (it_t it)"
  "streams (it_t (write_window_update s it)) = streams (it_t it)"
  by (simp_all add: write_window_update_def Let_def grpc_slice_buffer_add_def)

lemma write_body_buffer_le:
  "length (flow_controlled_buffer (it_s (write_body s it))) \<le> length (flow_controlled_buffer (it_s it))"
  by (simp add: write_body_def Let_def grpc_chttp2_encode_data_def GRPC_CHTTP2_STREAM_REF_def
      split: prod.splits)

lemma send_bytes_pos:
  "0 < max_outgoing t str \<Longrightarrow> flow_controlled_buffer str \<noteq> [] \<Longrightarrow> 0 < send_bytes t str"
  by (auto simp: send_bytes_def max_outgoing_def u32_def GPR_MIN_def)

lemma write_body_writable:
  "writable (it_t (write_body s it)) = writable (it_t it) \<or>
   (writable (it_t (write_body s it)) = writable (it_t it) @ [s] \<and>
    length (flow_controlled_buffer (it_s (write_body s it))) < length (flow_controlled_buffer (it_s it)))"
  using send_bytes_pos [of "it_t it" "it_s it"]
  by (auto simp: write_body_def Let_def grpc_chttp2_encode_data_def GRPC_CHTTP2_STREAM_REF_def
      write_rst_stream_def grpc_slice_buffer_add_def grpc_chttp2_list_add_writable_stream_def
      grpc_chttp2_list_add_stalled_by_transport_def stream_list_add_def
      split: prod.splits)

lemma write_body_streams: "streams (it_t (write_body s it)) = streams (it_t it)"
  by (simp add: write_body_def Let_def grpc_chttp2_encode_data_def
      write_rst_stream_def grpc_slice_buffer_add_def grpc_chttp2_list_add_writable_stream_def
      grpc_chttp2_list_add_stalled_by_transport_def stream_list_add_def
      split: prod.splits)

lemma write_trailing_metadata_buffer:
  "flow_controlled_buffer (it_s (write_trailing_metadata s it)) = flow_controlled_buffer (it_s it)"
  by (simp add: write_trailing_metadata_def Let_def grpc_chttp2_encode_data_def
      split: option.splits prod.splits)

lemma write_trailing_metadata_lists:
  "writable (it_t (write_trailing_metadata s it)) = writable (it_t it)"
  "writing (it_t (write_trailing_metadata s it)) = writing (it_t it)"
  "stalled_by_transport (it_t (write_trailing_metadata s it)) = stalled_by_transport (it_t it)"
  "streams (it_t (write_trailing_metadata s it)) = streams (it_t it)"
  by (simp_all add: write_trailing_metadata_def Let_def grpc_chttp2_encode_data_def
      grpc_chttp2_encode_header_def write_rst_stream_def grpc_slice_buffer_add_def
      split: option.splits prod.splits)

lemma finish_iter_streams:
  "x \<noteq> s \<Longrightarrow> streams (finish_iter s it) x = streams (it_t it) x"
  "flow_controlled_buffer (streams (finish_iter s it) s) = flow_controlled_buffer (it_s it)"
  by (simp_all add: finish_iter_def Let_def grpc_chttp2_list_add_writing_stream_def
      grpc_chttp2_leave_writing_lists_def GRPC_CHTTP2_STREAM_UNREF_def stream_list_add_def
      split: prod.splits)

lemma finish_iter_writable:
  "writable (finish_iter s it) = writable (it_t it) \<or>
   (writable (finish_iter s it) = removeAll s (writable (it_t it)) \<and> \<not> it_now_writing it)"
  by (simp add: finish_iter_def Let_def grpc_chttp2_list_add_writing_stream_def
      grpc_chttp2_leave_writing_lists_def stream_list_add_def split: prod.splits)


lemma sum_list_removeAll_le: "sum_list (map f (removeAll s xs)) \<le> sum_list (map (f::nat \<Rightarrow> nat) xs)"
  by (induction xs) auto

lemma length_removeAll_le: "length (removeAll s xs) \<le> length xs"
  by (rule length_removeAll_less_eq)

lemma process_stream_decreases:
  assumes "writable t = s # rest"
  shows "loop_measure (process_stream (t\<lparr>writable := rest\<rparr>) s) < loop_measure t"
proof -
  define t1 where "t1 = t\<lparr>writable := rest\<rparr>"
  define it2 where "it2 = write_window_update s (write_initial_metadata s (iter_start t1 s))"
  define it3 where "it3 = (if it_sent_initial_metadata it2
                 then write_trailing_metadata s (write_body s it2) else it2)"
  define t' where "t' = finish_iter s it3"
  define f where "f = (\<lambda>x. length (flow_controlled_buffer (streams t x)))"
  define f' where "f' = (\<lambda>x. length (flow_controlled_buffer (streams t' x)))"
  have t': "process_stream t1 s = t'"
    by (simp add: process_stream_def t'_def it3_def it2_def Let_def)
  have b2: "flow_controlled_buffer (it_s it2) = flow_controlled_buffer (streams t s)"
    by (simp add: it2_def write_window_update_buffer write_initial_metadata_buffer iter_start_def t1_def)
  have w2: "writable (it_t it2) = rest"
    by (simp add: it2_def write_window_update_lists write_initial_metadata_lists iter_start_def t1_def)
  have s2: "streams (it_t it2) = streams t"
    by (simp add: it2_def write_window_update_lists write_initial_metadata_lists iter_start_def t1_def)
  have s3: "streams (it_t it3) = streams t"
    by (simp add: it3_def s2 write_trailing_metadata_lists write_body_streams)
  have b3: "length (flow_controlled_buffer (it_s it3)) \<le> f s"
    using write_body_buffer_le [of s it2]
    by (simp add: it3_def b2 f_def write_trailing_metadata_buffer)
  have w3: "writable (it_t it3) = rest \<or>
      (writable (it_t it3) = rest @ [s] \<and> length (flow_controlled_buffer (it_s it3)) < f s)"
    using write_body_writable [of s it2]
    by (auto simp: it3_def w2 b2 f_def write_trailing_metadata_buffer write_trailing_metadata_lists)
  have f's: "f' s = length (flow_controlled_buffer (it_s it3))"
    by (simp add: f'_def t'_def finish_iter_streams)
  have f'x: "f' x \<le> f x" for x
    using b3 f's by (cases "x = s") (simp_all add: f'_def f_def t'_def finish_iter_streams s3)
  have le: "sum_list (map f' xs) \<le> sum_list (map f xs)" for xs
    by (rule sum_list_mono) (simp add: f'x)
  have w': "writable t' = writable (it_t it3) \<or> writable t' = removeAll s (writable (it_t it3))"
    using finish_iter_writable [of s it3] by (auto simp: t'_def)
  have m': "loop_measure t' \<le> sum_list (map f' (writable (it_t it3))) + length (writable (it_t it3))"
    using w' sum_list_removeAll_le [of f' s "writable (it_t it3)"]
      length_removeAll_le [of s "writable (it_t it3)"]
    by (auto simp: loop_measure_def f'_def intro: add_mono)
  have m: "loop_measure t = f s + sum_list (map f rest) + length rest + 1"
    by (simp add: loop_measure_def assms f_def)
  from w3 have "sum_list (map f' (writable (it_t it3))) + length (writable (it_t it3)) < loop_measure t"
  proof
    assume "writable (it_t it3) = rest"
    then show ?thesis using le [of rest] by (simp add: m)
  next
    assume a: "writable (it_t it3) = rest @ [s] \<and> length (flow_controlled_buffer (it_s it3)) < f s"
    then show ?thesis using le [of rest] f's by (simp add: m)
  qed
  with m' have "loop_measure t' < loop_measure t" by simp
  then show ?thesis using t' by (simp add: t1_def)
qed

termination begin_write_loop
  by (relation "measure loop_measure") (simp_all add: process_stream_decreases)

lemma update_list_loop_lists:
  "writing (fst (update_list_loop error w cbs acc)) = writing (fst acc)"
  "writable (fst (update_list_loop error w cbs acc)) = writable (fst acc)"
  "stalled_by_transport (fst (update_list_loop error w cbs acc)) = stalled_by_transport (fst acc)"
  "streams (fst (update_list_loop error w cbs acc)) = streams (fst acc)"
  "outbuf (fst (update_list_loop error w cbs acc)) = outbuf (fst acc)"
  by (induction error w cbs acc rule: update_list_loop.induct;
      simp add: finish_write_cb_def grpc_chttp2_complete_closure_step_def Let_def split: prod.splits)+

lemma update_list_lists:
  "writing (fst (update_list ts n error)) = writing (fst ts)"
  "writable (fst (update_list ts n error)) = writable (fst ts)"
  "stalled_by_transport (fst (update_list ts n error)) = stalled_by_transport (fst ts)"
  "streams (fst (update_list ts n error)) = streams (fst ts)"
  "outbuf (fst (update_list ts n error)) = outbuf (fst ts)"
  using update_list_loop_lists [of error _ _ "(fst ts, [])"]
  by (simp_all add: update_list_def Let_def split: prod.splits)
    (metis fst_conv)+

lemma complete_closure_step_lists:
  "writing (grpc_chttp2_complete_closure_step t c error) = writing t"
  "writable (grpc_chttp2_complete_closure_step t c error) = writable t"
  "stalled_by_transport (grpc_chttp2_complete_closure_step t c error) = stalled_by_transport t"
  "streams (grpc_chttp2_complete_closure_step t c error) = streams t"
  "outbuf (grpc_chttp2_complete_closure_step t c error) = outbuf t"
  by (simp_all add: grpc_chttp2_complete_closure_step_def split: option.splits)

lemma finish_stream_write_writing:
  "writing (finish_stream_write error t s) = removeAll s (writing t)"
  by (simp add: finish_stream_write_def Let_def split_def grpc_chttp2_leave_writing_lists_def
      complete_closure_step_lists update_list_lists)

termination end_write_loop
  by (relation "measure (\<lambda>(error, t). length (writing t))")
    (simp_all add: finish_stream_write_writing le_imp_less_Suc length_removeAll_le)

section \<open>One iteration of the loop, block by block\<close>

lemma write_initial_metadata_t:
  "it_t (write_initial_metadata s it) =
     (it_t it)\<lparr>outbuf := outbuf (it_t it) @
        (if sends_initial it then [HEADERS s (the (send_initial_metadata (it_s it))) False] else [])\<rparr>"
  by (simp add: write_initial_metadata_def sends_initial_def
      grpc_chttp2_encode_header_def grpc_slice_buffer_add_def split: option.splits)

lemma write_initial_metadata_s:
  "it_s (write_initial_metadata s it) =
     (it_s it)\<lparr>send_initial_metadata :=
                 (if sends_initial it then None else send_initial_metadata (it_s it)),
               sent_initial_metadata := (sends_initial it \<or> sent_initial_metadata (it_s it))\<rparr>"
  by (simp add: write_initial_metadata_def sends_initial_def split: option.splits)

lemma write_initial_metadata_flags:
  "it_sent_initial_metadata (write_initial_metadata s it) =
     (it_sent_initial_metadata it \<or> send_initial_metadata (it_s it) \<noteq> None)"
  "it_now_writing (write_initial_metadata s it) = (it_now_writing it \<or> sends_initial it)"
  by (auto simp: write_initial_metadata_def sends_initial_def split: option.splits)

lemma write_window_update_t:
  "it_t (write_window_update s it) =
     (it_t it)\<lparr>outbuf := outbuf (it_t it) @ window_update_frames s (it_s it)\<rparr>"
  by (simp add: write_window_update_def window_update_frames_def Let_def grpc_slice_buffer_add_def)

lemma write_window_update_s:
  "it_s (write_window_update s it) = (it_s it)\<lparr>announce_window := 0\<rparr>"
  by (simp add: write_window_update_def Let_def)

lemma write_window_update_flags:
  "it_sent_initial_metadata (write_window_update s it) = it_sent_initial_metadata it"
  "it_now_writing (write_window_update s it) = it_now_writing it"
  by (simp_all add: write_window_update_def Let_def)

lemma write_body_t:
  "it_t (write_body s it) =
     (it_t it)\<lparr>outbuf := outbuf (it_t it) @ body_frames s (it_t it) (it_s it),
       t_outgoing_window :=
         (if sends (it_t it) (it_s it)
          then s64 (t_outgoing_window (it_t it) - int (send_bytes (it_t it) (it_s it)))
          else t_outgoing_window (it_t it)),
       stalled_by_transport :=
         (if stalls (it_t it) (it_s it)
          then fst (stream_list_add (stalled_by_transport (it_t it)) s)
          else stalled_by_transport (it_t it)),
       writable :=
         (if forks (it_t it) (it_s it)
          then fst (stream_list_add (writable (it_t it)) s)
          else writable (it_t it))\<rparr>"
  by (simp add: write_body_def Let_def body_frames_def sends_def stalls_def forks_def rst_frames_def
      grpc_chttp2_encode_data_def write_rst_stream_def grpc_slice_buffer_add_def
      grpc_chttp2_list_add_writable_stream_def grpc_chttp2_list_add_stalled_by_transport_def
      GRPC_CHTTP2_STREAM_REF_def split_def)

lemma write_body_s:
  "it_s (write_body s it) =
     (if sends (it_t it) (it_s it) then
        (it_s it)\<lparr>flow_controlled_buffer :=
                    drop (send_bytes (it_t it) (it_s it)) (flow_controlled_buffer (it_s it)),
                  outgoing_window :=
                    s64 (outgoing_window (it_s it) - int (send_bytes (it_t it) (it_s it))),
                  send_trailing_metadata :=
                    (if is_last_frame (it_t it) (it_s it) then None
                     else send_trailing_metadata (it_s it)),
                  sent_trailing_metadata :=
                    (is_last_frame (it_t it) (it_s it) \<or> sent_trailing_metadata (it_s it)),
                  sending_bytes :=
                    u64 (int (sending_bytes (it_s it)) + int (send_bytes (it_t it) (it_s it))),
                  refs := (if forks (it_t it) (it_s it) then refs (it_s it) + 1 else refs (it_s it))\<rparr>
      else it_s it)"
  by (simp add: write_body_def Let_def sends_def stalls_def forks_def
      grpc_chttp2_encode_data_def write_rst_stream_def grpc_slice_buffer_add_def
      grpc_chttp2_list_add_writable_stream_def grpc_chttp2_list_add_stalled_by_transport_def
      GRPC_CHTTP2_STREAM_REF_def split_def)

lemma write_body_flags:
  "it_sent_initial_metadata (write_body s it) = it_sent_initial_metadata it"
  "it_now_writing (write_body s it) =
     (it_now_writing it \<or> sends (it_t it) (it_s it) \<or> stalls (it_t it) (it_s it))"
  by (auto simp: write_body_def Let_def sends_def stalls_def split_def)

lemma write_trailing_metadata_t:
  "it_t (write_trailing_metadata s it) =
     (it_t it)\<lparr>outbuf := outbuf (it_t it) @ trailing_frames s (it_t it) (it_s it)\<rparr>"
  by (simp add: write_trailing_metadata_def trailing_frames_def rst_frames_def Let_def split_def
      grpc_chttp2_encode_data_def grpc_chttp2_encode_header_def write_rst_stream_def
      grpc_slice_buffer_add_def split: option.splits)

lemma write_trailing_metadata_s:
  "it_s (write_trailing_metadata s it) =
     (if sends_trailing (it_s it)
      then (it_s it)\<lparr>send_trailing_metadata := None, sent_trailing_metadata := True\<rparr>
      else it_s it)"
  by (simp add: write_trailing_metadata_def sends_trailing_def Let_def split_def
      grpc_chttp2_encode_data_def split: option.splits)

lemma write_trailing_metadata_flags:
  "it_sent_initial_metadata (write_trailing_metadata s it) = it_sent_initial_metadata it"
  "it_now_writing (write_trailing_metadata s it) = (it_now_writing it \<or> sends_trailing (it_s it))"
  by (auto simp: write_trailing_metadata_def sends_trailing_def Let_def split_def
      split: option.splits)

lemma finish_iter_eq:
  "finish_iter s it =
     (if it_now_writing it then
        (it_t it)\<lparr>writing := fst (stream_list_add (writing (it_t it)) s),
                  streams := (streams (it_t it))
                    (s := (if s \<in> set (writing (it_t it))
                           then GRPC_CHTTP2_STREAM_UNREF (it_s it) else it_s it))\<rparr>
      else
        (it_t it)\<lparr>stalled_by_transport := removeAll s (stalled_by_transport (it_t it)),
                  writable := removeAll s (writable (it_t it)),
                  writing := removeAll s (writing (it_t it)),
                  streams := (streams (it_t it))(s := GRPC_CHTTP2_STREAM_UNREF (it_s it))\<rparr>)"
  by (simp add: finish_iter_def Let_def grpc_chttp2_list_add_writing_stream_def
      grpc_chttp2_leave_writing_lists_def stream_list_add_def)

lemma body_locals_cong:
  assumes "max_frame_size t' = max_frame_size t" "t_outgoing_window t' = t_outgoing_window t"
    "flow_controlled_buffer str' = flow_controlled_buffer str"
    "outgoing_window str' = outgoing_window str"
    "fetching_send_message str' = fetching_send_message str"
    "send_trailing_metadata str' = send_trailing_metadata str"
  shows "max_outgoing t' str' = max_outgoing t str" "send_bytes t' str' = send_bytes t str"
    "is_last_frame t' str' = is_last_frame t str" "sends t' str' = sends t str"
    "stalls t' str' = stalls t str" "forks t' str' = forks t str"
  using assms
  by (simp_all add: max_outgoing_def send_bytes_def is_last_frame_def is_last_data_frame_def
      sends_def stalls_def forks_def)

lemma body_frames_cong:
  assumes "max_frame_size t' = max_frame_size t" "t_outgoing_window t' = t_outgoing_window t"
    "is_client t' = is_client t"
    "flow_controlled_buffer str' = flow_controlled_buffer str"
    "outgoing_window str' = outgoing_window str"
    "fetching_send_message str' = fetching_send_message str"
    "send_trailing_metadata str' = send_trailing_metadata str"
    "read_closed str' = read_closed str"
  shows "body_frames s t' str' = body_frames s t str"
  using assms body_locals_cong [of t' t str' str]
  by (simp add: body_frames_def rst_frames_def)

lemma trailing_frames_cong:
  assumes "is_client t' = is_client t"
  shows "trailing_frames s t' str = trailing_frames s t str"
  using assms by (auto simp: trailing_frames_def rst_frames_def split: option.splits)

lemma iter2_t:
  "it_t (write_window_update s (write_initial_metadata s (iter_start t s))) =
     t\<lparr>outbuf := outbuf t @ initial_metadata_frames s (streams t s) @
                    window_update_frames s (streams t s)\<rparr>"
  by (simp add: write_window_update_t write_initial_metadata_t write_initial_metadata_s
      iter_start_def sends_initial_def initial_metadata_frames_def window_update_frames_def
      split: option.splits)

lemma iter2_s:
  "it_s (write_window_update s (write_initial_metadata s (iter_start t s))) =
     (streams t s)\<lparr>send_initial_metadata :=
                       (if sent_initial_metadata (streams t s)
                        then send_initial_metadata (streams t s) else None),
                     sent_initial_metadata := sent_im (streams t s),
                     announce_window := 0\<rparr>"
  by (auto simp: write_window_update_s write_initial_metadata_s iter_start_def sends_initial_def
      sent_im_def)

lemma iter2_flags:
  "it_sent_initial_metadata (write_window_update s (write_initial_metadata s (iter_start t s))) =
     sent_im (streams t s)"
  "it_now_writing (write_window_update s (write_initial_metadata s (iter_start t s))) =
     (\<not> sent_initial_metadata (streams t s) \<and> send_initial_metadata (streams t s) \<noteq> None)"
  by (auto simp: write_window_update_flags write_initial_metadata_flags iter_start_def
      sends_initial_def sent_im_def)

lemma pre_body_fields:
  "flow_controlled_buffer (pre_body str) = flow_controlled_buffer str"
  "outgoing_window (pre_body str) = outgoing_window str"
  "fetching_send_message (pre_body str) = fetching_send_message str"
  "send_trailing_metadata (pre_body str) = send_trailing_metadata str"
  "sent_trailing_metadata (pre_body str) = sent_trailing_metadata str"
  "read_closed (pre_body str) = read_closed str"
  "sending_bytes (pre_body str) = sending_bytes str"
  "refs (pre_body str) = refs str"
  "sent_initial_metadata (pre_body str) = sent_im str"
  by (simp_all add: pre_body_def)

lemma pre_body_locals:
  "max_outgoing t (pre_body str) = max_outgoing t str"
  "send_bytes t (pre_body str) = send_bytes t str"
  "is_last_frame t (pre_body str) = is_last_frame t str"
  "sends t (pre_body str) = sends t str"
  "stalls t (pre_body str) = stalls t str"
  "forks t (pre_body str) = forks t str"
  by (rule body_locals_cong; simp add: pre_body_fields)+

lemma outbuf_locals:
  "max_outgoing (t\<lparr>outbuf := b\<rparr>) str = max_outgoing t str"
  "send_bytes (t\<lparr>outbuf := b\<rparr>) str = send_bytes t str"
  "is_last_frame (t\<lparr>outbuf := b\<rparr>) str = is_last_frame t str"
  "sends (t\<lparr>outbuf := b\<rparr>) str = sends t str"
  "stalls (t\<lparr>outbuf := b\<rparr>) str = stalls t str"
  "forks (t\<lparr>outbuf := b\<rparr>) str = forks t str"
  by (rule body_locals_cong; simp)+

lemma after_body_outbuf: "after_body (t\<lparr>outbuf := b\<rparr>) str = after_body t str"
  by (simp add: after_body_def outbuf_locals)

lemma after_body_pre_body_fields:
  "flow_controlled_buffer (after_body t (pre_body str)) = flow_controlled_buffer (after_body t str)"
  "outgoing_window (after_body t (pre_body str)) = outgoing_window (after_body t str)"
  "fetching_send_message (after_body t (pre_body str)) = fetching_send_message (after_body t str)"
  "send_trailing_metadata (after_body t (pre_body str)) = send_trailing_metadata (after_body t str)"
  "sent_trailing_metadata (after_body t (pre_body str)) = sent_trailing_metadata (after_body t str)"
  "read_closed (after_body t (pre_body str)) = read_closed (after_body t str)"
  "sending_bytes (after_body t (pre_body str)) = sending_bytes (after_body t str)"
  "refs (after_body t (pre_body str)) = refs (after_body t str)"
  "sent_initial_metadata (after_body t (pre_body str)) = sent_im str"
  by (simp_all add: after_body_def pre_body_locals pre_body_fields)

lemma trailing_pre_body:
  "trailing_frames s t (after_body t (pre_body str)) = trailing_frames s t (after_body t str)"
  "sends_trailing (after_body t (pre_body str)) = sends_trailing (after_body t str)"
  by (auto simp: trailing_frames_def rst_frames_def sends_trailing_def after_body_pre_body_fields
      split: option.splits)

lemma body_frames_pre_body:
  "body_frames s (t\<lparr>outbuf := b\<rparr>) (pre_body str) = body_frames s t str"
  by (rule body_frames_cong) (simp_all add: pre_body_fields)

lemma iter2_s': "it_s (write_window_update s (write_initial_metadata s (iter_start t s))) = pre_body (streams t s)"
  by (simp add: iter2_s pre_body_def)

lemma write_body_s': "it_s (write_body s it) = after_body (it_t it) (it_s it)"
  by (simp add: write_body_s after_body_def)

lemma write_trailing_metadata_s': "it_s (write_trailing_metadata s it) = after_trailing (it_s it)"
  by (simp add: write_trailing_metadata_s after_trailing_def)

lemma iter3_t:
  "sent_im (streams t s) \<Longrightarrow>
   it_t (write_trailing_metadata s (write_body s
      (write_window_update s (write_initial_metadata s (iter_start t s))))) =
     t\<lparr>outbuf := outbuf t @ stream_frames s t (streams t s),
       t_outgoing_window :=
         (if sends t (streams t s)
          then s64 (t_outgoing_window t - int (send_bytes t (streams t s)))
          else t_outgoing_window t),
       stalled_by_transport :=
         (if stalls t (streams t s)
          then fst (stream_list_add (stalled_by_transport t) s)
          else stalled_by_transport t),
       writable :=
         (if forks t (streams t s)
          then fst (stream_list_add (writable t) s)
          else writable t)\<rparr>"
  by (simp add: write_trailing_metadata_t write_body_t write_body_s' iter2_t iter2_s'
      stream_frames_def outbuf_locals pre_body_locals after_body_outbuf trailing_pre_body
      body_frames_pre_body
      trailing_frames_cong [of "t\<lparr>outbuf := b, t_outgoing_window := w, stalled_by_transport := x, writable := y\<rparr>" t for b w x y])

lemma iter3_s:
  "sent_im (streams t s) \<Longrightarrow>
   it_s (write_trailing_metadata s (write_body s
      (write_window_update s (write_initial_metadata s (iter_start t s))))) =
     stream_after t (streams t s)"
  by (simp add: write_trailing_metadata_s' write_body_s' iter2_t iter2_s' stream_after_def
      after_body_outbuf)

lemma iter3_now_writing:
  "sent_im (streams t s) \<Longrightarrow>
   it_now_writing (write_trailing_metadata s (write_body s
      (write_window_update s (write_initial_metadata s (iter_start t s))))) =
     marks_writing t (streams t s)"
  by (auto simp: write_trailing_metadata_flags write_body_flags write_body_s' iter2_flags iter2_t
      iter2_s' marks_writing_def outbuf_locals pre_body_locals after_body_outbuf trailing_pre_body)

lemma process_stream_eq:
  "process_stream t s =
     (if marks_writing t (streams t s) then
        t\<lparr>outbuf := outbuf t @ stream_frames s t (streams t s),
          t_outgoing_window :=
            (if sent_im (streams t s) \<and> sends t (streams t s)
             then s64 (t_outgoing_window t - int (send_bytes t (streams t s)))
             else t_outgoing_window t),
          stalled_by_transport :=
            (if sent_im (streams t s) \<and> stalls t (streams t s)
             then fst (stream_list_add (stalled_by_transport t) s)
             else stalled_by_transport t),
          writable :=
            (if sent_im (streams t s) \<and> forks t (streams t s)
             then fst (stream_list_add (writable t) s)
             else writable t),
          writing := fst (stream_list_add (writing t) s),
          streams := (streams t)
            (s := (if s \<in> set (writing t)
                   then GRPC_CHTTP2_STREAM_UNREF (stream_after t (streams t s))
                   else stream_after t (streams t s)))\<rparr>
      else
        t\<lparr>outbuf := outbuf t @ stream_frames s t (streams t s),
          stalled_by_transport := removeAll s (stalled_by_transport t),
          writable := removeAll s (writable t),
          writing := removeAll s (writing t),
          streams := (streams t)(s := GRPC_CHTTP2_STREAM_UNREF (stream_after t (streams t s)))\<rparr>)"
proof (cases "sent_im (streams t s)")
  case True
  show ?thesis
  proof (cases "marks_writing t (streams t s)")
    case mw: True
    show ?thesis
      by (simp add: process_stream_def Let_def iter2_flags finish_iter_eq iter3_t iter3_s
          iter3_now_writing True mw)
  next
    case mw: False
    have "\<not> sends t (streams t s)" "\<not> stalls t (streams t s)" "\<not> forks t (streams t s)"
      using True mw by (auto simp: marks_writing_def forks_def)
    then show ?thesis
      by (simp add: process_stream_def Let_def iter2_flags finish_iter_eq iter3_t iter3_s
          iter3_now_writing True mw)
  qed
next
  case False
  have "\<not> marks_writing t (streams t s)"
    using False by (simp add: marks_writing_def sent_im_def)
  then show ?thesis
    using False
    by (simp add: process_stream_def Let_def iter2_flags finish_iter_eq iter2_t iter2_s'
        stream_frames_def stream_after_def sent_im_def)
qed

section \<open>Draining the callback list\<close>

lemma update_list_loop_eq:
  "update_list_loop error w cbs (t, list) =
     (t\<lparr>completed := completed t @ fired_with error (filter (due w) cbs),
        write_cb_pool := rev (filter (due w) cbs) @ write_cb_pool t\<rparr>,
      rev (filter (\<lambda>cb. \<not> due w cb) cbs) @ list)"
proof (induction cbs arbitrary: t list)
  case Nil
  then show ?case by (simp add: fired_with_def)
next
  case (Cons cb cbs)
  then show ?case
    by (simp add: due_def fired_with_def finish_write_cb_def add_to_write_list_def
        grpc_chttp2_complete_closure_step_def Let_def)
qed

lemma update_list_eq:
  "update_list (t, str) n error =
     (let w = s64 (flow_controlled_bytes_written str + n)
      in (t\<lparr>completed := completed t @ fired_with error (filter (due w) (on_write_finished_cbs str)),
            write_cb_pool := rev (filter (due w) (on_write_finished_cbs str)) @ write_cb_pool t\<rparr>,
          str\<lparr>on_write_finished_cbs := rev (filter (\<lambda>cb. \<not> due w cb) (on_write_finished_cbs str)),
              flow_controlled_bytes_written := w\<rparr>))"
  by (simp add: update_list_def Let_def update_list_loop_eq)

text \<open>
  Scenario 3 of the specification: callbacks registered at bytes 5 and 20, nothing written
  before. A drain that confirms 10 bytes fires the first callback only; the second one
  fires at the next drain, which brings the total to 20.
\<close>

lemma update_list_scenario:
  "(case update_list
      (t\<lparr>completed := []\<rparr>,
       str\<lparr>flow_controlled_bytes_written := 0,
           on_write_finished_cbs := [\<lparr>call_at_byte = 5, closure = 1\<rparr>, \<lparr>call_at_byte = 20, closure = 2\<rparr>]\<rparr>)
      10 GRPC_ERROR_NONE of
     (t1, s1) \<Rightarrow>
       completed t1 = [(1, GRPC_ERROR_NONE)] \<and>
       on_write_finished_cbs s1 = [\<lparr>call_at_byte = 20, closure = 2\<rparr>] \<and>
       (case update_list (t1, s1) 10 GRPC_ERROR_NONE of
          (t2, s2) \<Rightarrow>
            completed t2 = [(1, GRPC_ERROR_NONE), (2, GRPC_ERROR_NONE)] \<and>
            on_write_finished_cbs s2 = []))"
  by (simp add: update_list_eq Let_def due_def fired_with_def s64_def)

section \<open>The loop over the writable streams\<close>

declare begin_write_loop.simps [simp del]

declare end_write_loop.simps [simp del]


lemma begin_write_loop_Nil: "writable t = [] \<Longrightarrow> begin_write_loop t = t"
  by (subst begin_write_loop.simps) simp

lemma begin_write_loop_Cons:
  "writable t = s # rest \<Longrightarrow>
   begin_write_loop t = begin_write_loop (process_stream (t\<lparr>writable := rest\<rparr>) s)"
  by (subst begin_write_loop.simps) simp

lemma begin_write_loop_rule:
  assumes "P t"
    and "\<And>t s rest. P t \<Longrightarrow> writable t = s # rest \<Longrightarrow> P (process_stream (t\<lparr>writable := rest\<rparr>) s)"
  shows "P (begin_write_loop t)"
  using assms(1)
proof (induction t rule: begin_write_loop.induct)
  case (1 t)
  show ?case
  proof (cases "writable t")
    case Nil
    then show ?thesis using "1.prems" by (simp add: begin_write_loop_Nil)
  next
    case (Cons s rest)
    then show ?thesis
      using "1.IH" [OF Cons] assms(2) [OF "1.prems" Cons] by (simp add: begin_write_loop_Cons)
  qed
qed

lemma begin_write_loop_writable: "writable (begin_write_loop t) = []"
proof (induction t rule: begin_write_loop.induct)
  case (1 t)
  then show ?case
    by (cases "writable t") (simp_all add: begin_write_loop_Nil begin_write_loop_Cons)
qed

lemma iteration_cong:
  assumes "max_frame_size t' = max_frame_size t" "t_outgoing_window t' = t_outgoing_window t"
    "is_client t' = is_client t"
  shows "stream_frames s t' str = stream_frames s t str"
    "stream_after t' str = stream_after t str"
    "marks_writing t' str = marks_writing t str"
    "sends t' str = sends t str" "stalls t' str = stalls t str" "forks t' str = forks t str"
    "send_bytes t' str = send_bytes t str" "is_last_frame t' str = is_last_frame t str"
    "max_outgoing t' str = max_outgoing t str"
proof -
  have l: "max_outgoing t' x = max_outgoing t x" "send_bytes t' x = send_bytes t x"
    "is_last_frame t' x = is_last_frame t x" "sends t' x = sends t x"
    "stalls t' x = stalls t x" "forks t' x = forks t x" for x
    by (rule body_locals_cong; simp add: assms)+
  have a: "after_body t' x = after_body t x" for x
    by (simp add: after_body_def l)
  have b: "body_frames s t' x = body_frames s t x" for x
    by (rule body_frames_cong) (simp_all add: assms)
  have c: "trailing_frames s t' x = trailing_frames s t x" for x
    by (rule trailing_frames_cong) (simp add: assms)
  show "stream_frames s t' str = stream_frames s t str"
    by (simp add: stream_frames_def a b c)
  show "stream_after t' str = stream_after t str"
    by (simp add: stream_after_def a)
  show "marks_writing t' str = marks_writing t str"
    by (simp add: marks_writing_def a l)
  show "sends t' str = sends t str" "stalls t' str = stalls t str" "forks t' str = forks t str"
    "send_bytes t' str = send_bytes t str" "is_last_frame t' str = is_last_frame t str"
    "max_outgoing t' str = max_outgoing t str"
    by (simp_all add: l)
qed

lemmas popped_iteration [simp] = iteration_cong [of "t\<lparr>writable := rest\<rparr>" t for t rest, simplified]

lemma process_stream_outbuf:
  "outbuf (process_stream t s) = outbuf t @ stream_frames s t (streams t s)"
  by (simp add: process_stream_eq)

lemma process_stream_fixed:
  "is_client (process_stream t s) = is_client t"
  "max_frame_size (process_stream t s) = max_frame_size t"
  by (simp_all add: process_stream_eq)

lemma process_stream_window:
  "t_outgoing_window (process_stream t s) =
     (if sent_im (streams t s) \<and> sends t (streams t s)
      then s64 (t_outgoing_window t - int (send_bytes t (streams t s)))
      else t_outgoing_window t)"
  by (auto simp: process_stream_eq marks_writing_def)

lemma process_stream_others: "x \<noteq> s \<Longrightarrow> streams (process_stream t s) x = streams t x"
  by (simp add: process_stream_eq)

lemma process_stream_self:
  "\<exists>r. streams (process_stream t s) s = (stream_after t (streams t s))\<lparr>refs := r\<rparr>"
proof -
  have "\<exists>r. x = x\<lparr>refs := r\<rparr>" "\<exists>r. GRPC_CHTTP2_STREAM_UNREF x = x\<lparr>refs := r\<rparr>" for x :: stream
    by (rule exI [of _ "refs x"], simp) (rule exI [of _ "refs x - 1"], simp add: GRPC_CHTTP2_STREAM_UNREF_def)
  then show ?thesis by (simp add: process_stream_eq)
qed

lemma emitted_append: "outbuf t' = outbuf t @ new \<Longrightarrow> emitted t t' = new"
  by (simp add: emitted_def)

subsection \<open>Flow control in one iteration\<close>

lemma s64_id: "- 9223372036854775808 \<le> x \<Longrightarrow> x < 9223372036854775808 \<Longrightarrow> s64 x = x"
  by (simp add: s64_def)

lemma send_bytes_le:
  "send_bytes t str \<le> max_outgoing t str"
  "send_bytes t str \<le> length (flow_controlled_buffer str)"
proof -
  have "int (GPR_MIN (max_outgoing t str) (length (flow_controlled_buffer str))) mod 4294967296
        \<le> int (GPR_MIN (max_outgoing t str) (length (flow_controlled_buffer str)))"
    by (rule zmod_le_nonneg_dividend) simp
  then have "send_bytes t str \<le> GPR_MIN (max_outgoing t str) (length (flow_controlled_buffer str))"
    by (simp add: send_bytes_def u32_def)
  then show "send_bytes t str \<le> max_outgoing t str"
    "send_bytes t str \<le> length (flow_controlled_buffer str)"
    by (simp_all add: GPR_MIN_def split: if_splits)
qed

lemma max_outgoing_le:
  assumes "0 \<le> outgoing_window str" "0 \<le> t_outgoing_window t"
  shows "int (max_outgoing t str) \<le> outgoing_window str"
    "int (max_outgoing t str) \<le> t_outgoing_window t"
proof -
  define m where "m = GPR_MIN (int (max_frame_size t)) (GPR_MIN (outgoing_window str) (t_outgoing_window t))"
  have m0: "0 \<le> m" using assms by (simp add: m_def GPR_MIN_def)
  have "m mod 4294967296 \<le> m" using m0 by (rule zmod_le_nonneg_dividend)
  then have "int (max_outgoing t str) \<le> m"
    by (simp add: max_outgoing_def u32_def m_def)
  moreover have "m \<le> outgoing_window str" "m \<le> t_outgoing_window t"
    by (simp_all add: m_def GPR_MIN_def)
  ultimately show "int (max_outgoing t str) \<le> outgoing_window str"
    "int (max_outgoing t str) \<le> t_outgoing_window t"
    by simp_all
qed

lemma data_bytes_append [simp]: "data_bytes (xs @ ys) = data_bytes xs + data_bytes ys"
  by (simp add: data_bytes_def)

lemma data_bytes_of_append [simp]: "data_bytes_of x (xs @ ys) = data_bytes_of x xs + data_bytes_of x ys"
  by (simp add: data_bytes_of_def)

lemma data_bytes_blocks:
  "data_bytes (initial_metadata_frames s str) = 0"
  "data_bytes (window_update_frames s str) = 0"
  "data_bytes (trailing_frames s t str) = 0"
  "data_bytes (body_frames s t str) = (if sends t str then send_bytes t str else 0)"
  using send_bytes_le(2) [of t str]
  by (auto simp: data_bytes_def initial_metadata_frames_def window_update_frames_def
      trailing_frames_def body_frames_def rst_frames_def split: option.splits)

lemma data_bytes_of_blocks:
  "data_bytes_of x (initial_metadata_frames s str) = 0"
  "data_bytes_of x (window_update_frames s str) = 0"
  "data_bytes_of x (trailing_frames s t str) = 0"
  "data_bytes_of x (body_frames s t str) = (if sends t str \<and> x = s then send_bytes t str else 0)"
  using send_bytes_le(2) [of t str]
  by (auto simp: data_bytes_of_def initial_metadata_frames_def window_update_frames_def
      trailing_frames_def body_frames_def rst_frames_def split: option.splits if_splits)

lemma data_bytes_stream_frames:
  "data_bytes (stream_frames s t str) = (if sent_im str \<and> sends t str then send_bytes t str else 0)"
  "data_bytes_of x (stream_frames s t str) =
     (if sent_im str \<and> sends t str \<and> x = s then send_bytes t str else 0)"
  by (simp_all add: stream_frames_def data_bytes_blocks data_bytes_of_blocks)
    (simp_all add: data_bytes_def data_bytes_of_def)

lemma stream_after_window:
  "outgoing_window (stream_after t str) =
     (if sent_im str \<and> sends t str
      then s64 (outgoing_window str - int (send_bytes t str))
      else outgoing_window str)"
  by (simp add: stream_after_def after_trailing_def after_body_def pre_body_locals pre_body_fields)

lemma stream_after_buffer:
  "flow_controlled_buffer (stream_after t str) =
     (if sent_im str \<and> sends t str
      then drop (send_bytes t str) (flow_controlled_buffer str)
      else flow_controlled_buffer str)"
  by (simp add: stream_after_def after_trailing_def after_body_def pre_body_locals pre_body_fields)

lemma process_stream_stream_window:
  "outgoing_window (streams (process_stream t s) s) =
     (if sent_im (streams t s) \<and> sends t (streams t s)
      then s64 (outgoing_window (streams t s) - int (send_bytes t (streams t s)))
      else outgoing_window (streams t s))"
  using process_stream_self [of t s] by (auto simp: stream_after_window)

lemma process_stream_windows:
  assumes "fits_window (t_outgoing_window t)" "fits_window (outgoing_window (streams t s))"
  shows "t_outgoing_window (process_stream t s) =
           t_outgoing_window t - int (data_bytes (stream_frames s t (streams t s)))"
    and "outgoing_window (streams (process_stream t s) s) =
           outgoing_window (streams t s) - int (data_bytes_of s (stream_frames s t (streams t s)))"
    and "fits_window (t_outgoing_window (process_stream t s))"
    and "fits_window (outgoing_window (streams (process_stream t s) s))"
proof -
  have le: "int (send_bytes t (streams t s)) \<le> outgoing_window (streams t s)"
    "int (send_bytes t (streams t s)) \<le> t_outgoing_window t"
    using max_outgoing_le [of "streams t s" t] send_bytes_le(1) [of t "streams t s"] assms
    by (simp_all add: fits_window_def)
  have a: "s64 (t_outgoing_window t - int (send_bytes t (streams t s))) =
        t_outgoing_window t - int (send_bytes t (streams t s))"
    using le assms by (intro s64_id) (simp_all add: fits_window_def)
  have b: "s64 (outgoing_window (streams t s) - int (send_bytes t (streams t s))) =
        outgoing_window (streams t s) - int (send_bytes t (streams t s))"
    using le assms by (intro s64_id) (simp_all add: fits_window_def)
  show "t_outgoing_window (process_stream t s) =
           t_outgoing_window t - int (data_bytes (stream_frames s t (streams t s)))"
    by (simp add: process_stream_window data_bytes_stream_frames a)
  show "outgoing_window (streams (process_stream t s) s) =
           outgoing_window (streams t s) - int (data_bytes_of s (stream_frames s t (streams t s)))"
    by (simp add: process_stream_stream_window data_bytes_stream_frames b)
  show "fits_window (t_outgoing_window (process_stream t s))"
    using le assms by (simp add: process_stream_window a fits_window_def)
  show "fits_window (outgoing_window (streams (process_stream t s) s))"
    using le assms by (simp add: process_stream_stream_window b fits_window_def)
qed

subsection \<open>The frames of the loop\<close>

lemma loop_frames_Nil: "writable t = [] \<Longrightarrow> loop_frames t = []"
  by (simp add: loop_frames_def begin_write_loop_Nil emitted_def)

lemma begin_write_loop_outbuf: "outbuf (begin_write_loop t) = outbuf t @ loop_frames t"
proof (induction t rule: begin_write_loop.induct)
  case (1 t)
  show ?case
  proof (cases "writable t")
    case Nil
    then show ?thesis by (simp add: loop_frames_Nil begin_write_loop_Nil)
  next
    case (Cons s rest)
    have "outbuf (begin_write_loop t) =
        outbuf t @ stream_frames s t (streams t s) @
        loop_frames (process_stream (t\<lparr>writable := rest\<rparr>) s)"
      using "1.IH" [OF Cons] by (simp add: begin_write_loop_Cons [OF Cons] process_stream_outbuf)
    then show ?thesis by (simp add: loop_frames_def emitted_def)
  qed
qed

lemma loop_frames_Cons:
  assumes "writable t = s # rest"
  shows "loop_frames t =
     stream_frames s t (streams t s) @ loop_frames (process_stream (t\<lparr>writable := rest\<rparr>) s)"
proof -
  have "outbuf (begin_write_loop t) =
      outbuf t @ stream_frames s t (streams t s) @
      loop_frames (process_stream (t\<lparr>writable := rest\<rparr>) s)"
    using begin_write_loop_outbuf [of "process_stream (t\<lparr>writable := rest\<rparr>) s"]
    by (simp add: begin_write_loop_Cons [OF assms] process_stream_outbuf)
  then show ?thesis by (simp add: loop_frames_def emitted_def)
qed

lemma begin_write_loop_fixed:
  "is_client (begin_write_loop t) = is_client t"
  "max_frame_size (begin_write_loop t) = max_frame_size t"
proof -
  have "is_client (begin_write_loop t) = is_client t \<and>
        max_frame_size (begin_write_loop t) = max_frame_size t"
    by (rule begin_write_loop_rule [where P = "\<lambda>u. is_client u = is_client t \<and>
        max_frame_size u = max_frame_size t"]) (simp_all add: process_stream_fixed)
  then show "is_client (begin_write_loop t) = is_client t"
    "max_frame_size (begin_write_loop t) = max_frame_size t" by simp_all
qed

lemma begin_write_loop_windows:
  assumes "fits_window (t_outgoing_window t)" "\<forall>x. fits_window (outgoing_window (streams t x))"
  shows "t_outgoing_window (begin_write_loop t) =
           t_outgoing_window t - int (data_bytes (loop_frames t)) \<and>
         fits_window (t_outgoing_window (begin_write_loop t)) \<and>
         (\<forall>x. outgoing_window (streams (begin_write_loop t) x) =
                outgoing_window (streams t x) - int (data_bytes_of x (loop_frames t)) \<and>
              fits_window (outgoing_window (streams (begin_write_loop t) x)))"
  using assms
proof (induction t rule: begin_write_loop.induct)
  case (1 t)
  show ?case
  proof (cases "writable t")
    case Nil
    then show ?thesis using "1.prems"
      by (simp add: loop_frames_Nil begin_write_loop_Nil data_bytes_def data_bytes_of_def)
  next
    case (Cons s rest)
    define t0 where "t0 = t\<lparr>writable := rest\<rparr>"
    define t1 where "t1 = process_stream t0 s"
    define fr where "fr = stream_frames s t (streams t s)"
    have f0: "fits_window (t_outgoing_window t0)" "fits_window (outgoing_window (streams t0 s))"
      using "1.prems" by (simp_all add: t0_def)
    note w = process_stream_windows [OF f0, folded t1_def]
    have fr0: "stream_frames s t0 (streams t0 s) = fr"
      by (simp add: t0_def fr_def)
    have tw1: "t_outgoing_window t1 = t_outgoing_window t - int (data_bytes fr)"
      using w(1) by (simp add: fr0) (simp add: t0_def)
    have ow1: "outgoing_window (streams t1 x) =
        outgoing_window (streams t x) - int (data_bytes_of x fr)" for x
    proof (cases "x = s")
      case True
      then show ?thesis using w(2) by (simp add: fr0) (simp add: t0_def)
    next
      case False
      then show ?thesis
        by (simp add: t1_def process_stream_others fr_def data_bytes_stream_frames) (simp add: t0_def)
    qed
    have fit1: "fits_window (t_outgoing_window t1)"
      "\<forall>x. fits_window (outgoing_window (streams t1 x))"
    proof -
      show "fits_window (t_outgoing_window t1)" by (rule w(3))
      show "\<forall>x. fits_window (outgoing_window (streams t1 x))"
      proof
        fix x
        show "fits_window (outgoing_window (streams t1 x))"
          using w(4) "1.prems"(2)
          by (cases "x = s") (simp_all add: t1_def process_stream_others, simp add: t0_def)
      qed
    qed
    have ih: "t_outgoing_window (begin_write_loop t1) =
           t_outgoing_window t1 - int (data_bytes (loop_frames t1)) \<and>
         fits_window (t_outgoing_window (begin_write_loop t1)) \<and>
         (\<forall>x. outgoing_window (streams (begin_write_loop t1) x) =
                outgoing_window (streams t1 x) - int (data_bytes_of x (loop_frames t1)) \<and>
              fits_window (outgoing_window (streams (begin_write_loop t1) x)))"
      using "1.IH" [OF Cons, folded t0_def, folded t1_def] fit1 by blast
    have lf: "loop_frames t = fr @ loop_frames t1" "begin_write_loop t = begin_write_loop t1"
      by (simp_all add: loop_frames_Cons [OF Cons] begin_write_loop_Cons [OF Cons] fr_def t1_def t0_def)
    show ?thesis
      using ih unfolding lf tw1 ow1 by (auto simp: algebra_simps)
  qed
qed

subsection \<open>The steps around the loop\<close>

lemma become_writable_fields:
  "outbuf (grpc_chttp2_become_writable t s) = outbuf t"
  "t_outgoing_window (grpc_chttp2_become_writable t s) = t_outgoing_window t"
  "max_frame_size (grpc_chttp2_become_writable t s) = max_frame_size t"
  "is_client (grpc_chttp2_become_writable t s) = is_client t"
  "announce_incoming_window (grpc_chttp2_become_writable t s) = announce_incoming_window t"
  "writing (grpc_chttp2_become_writable t s) = writing t"
  "stalled_by_transport (grpc_chttp2_become_writable t s) = stalled_by_transport t"
  "writable (grpc_chttp2_become_writable t s) = fst (stream_list_add (writable t) s)"
  "(streams (grpc_chttp2_become_writable t s) x)\<lparr>refs := r\<rparr> = (streams t x)\<lparr>refs := r\<rparr>"
  by (simp_all add: grpc_chttp2_become_writable_def grpc_chttp2_list_add_writable_stream_def
      stream_list_add_def GRPC_CHTTP2_STREAM_REF_def)

lemma pop_all_stalled_fields:
  "outbuf (pop_all_stalled xs t) = outbuf t"
  "t_outgoing_window (pop_all_stalled xs t) = t_outgoing_window t"
  "max_frame_size (pop_all_stalled xs t) = max_frame_size t"
  "is_client (pop_all_stalled xs t) = is_client t"
  "announce_incoming_window (pop_all_stalled xs t) = announce_incoming_window t"
  "writing (pop_all_stalled xs t) = writing t"
  "stalled_by_transport (pop_all_stalled xs t) = []"
  "writable (pop_all_stalled xs t) = foldl (\<lambda>w s. fst (stream_list_add w s)) (writable t) xs"
  "(streams (pop_all_stalled xs t) x)\<lparr>refs := r\<rparr> = (streams t x)\<lparr>refs := r\<rparr>"
  by (induction xs arbitrary: t; simp add: become_writable_fields)+

lemma pre_loop_fields:
  "outbuf (pre_loop t) = outbuf t @ settings_frames t @ map RAW (qbuf t)"
  "t_outgoing_window (pre_loop t) = t_outgoing_window t"
  "max_frame_size (pre_loop t) = max_frame_size t"
  "is_client (pre_loop t) = is_client t"
  "announce_incoming_window (pre_loop t) = announce_incoming_window t"
  "writing (pre_loop t) = writing t"
  "stalled_by_transport (pre_loop t) =
     (if t_outgoing_window t > 0 then [] else stalled_by_transport t)"
  "writable (pre_loop t) =
     (if t_outgoing_window t > 0
      then foldl (\<lambda>w s. fst (stream_list_add w s)) (writable t) (stalled_by_transport t)
      else writable t)"
  "(streams (pre_loop t) x)\<lparr>refs := r\<rparr> = (streams t x)\<lparr>refs := r\<rparr>"
  by (simp_all add: pre_loop_def unstall_def pop_all_stalled_fields set_max_table_size_def
      flush_qbuf_def write_settings_def settings_frames_def grpc_slice_buffer_add_def)

lemma same_but_refs:
  assumes "a\<lparr>refs := 0\<rparr> = b\<lparr>refs := 0\<rparr>"
  shows "sent_initial_metadata a = sent_initial_metadata b"
    "send_initial_metadata a = send_initial_metadata b"
    "announce_window a = announce_window b"
    "flow_controlled_buffer a = flow_controlled_buffer b"
    "outgoing_window a = outgoing_window b"
    "fetching_send_message a = fetching_send_message b"
    "send_trailing_metadata a = send_trailing_metadata b"
    "sent_trailing_metadata a = sent_trailing_metadata b"
    "read_closed a = read_closed b"
    "sending_bytes a = sending_bytes b"
  using arg_cong [OF assms, of sent_initial_metadata] arg_cong [OF assms, of send_initial_metadata]
    arg_cong [OF assms, of announce_window] arg_cong [OF assms, of flow_controlled_buffer]
    arg_cong [OF assms, of outgoing_window] arg_cong [OF assms, of fetching_send_message]
    arg_cong [OF assms, of send_trailing_metadata] arg_cong [OF assms, of sent_trailing_metadata]
    arg_cong [OF assms, of read_closed] arg_cong [OF assms, of sending_bytes]
  by simp_all

lemmas pre_loop_stream = same_but_refs [OF pre_loop_fields(9)]

lemma begin_write_loop_announce:
  "announce_incoming_window (begin_write_loop t) = announce_incoming_window t"
  by (rule begin_write_loop_rule [where P = "\<lambda>u. announce_incoming_window u = announce_incoming_window t"])
    (simp_all add: process_stream_eq)

lemma write_transport_window_update_fields:
  "outbuf (write_transport_window_update t) = outbuf t @ transport_update_frames t"
  "t_outgoing_window (write_transport_window_update t) = t_outgoing_window t"
  "max_frame_size (write_transport_window_update t) = max_frame_size t"
  "is_client (write_transport_window_update t) = is_client t"
  "writing (write_transport_window_update t) = writing t"
  "writable (write_transport_window_update t) = writable t"
  "stalled_by_transport (write_transport_window_update t) = stalled_by_transport t"
  "streams (write_transport_window_update t) = streams t"
  by (simp_all add: write_transport_window_update_def transport_update_frames_def Let_def
      grpc_slice_buffer_add_def)

lemma begin_write_eq:
  "snd (grpc_chttp2_begin_write t) = write_transport_window_update (begin_write_loop (pre_loop t))"
  "fst (grpc_chttp2_begin_write t) = (outbuf (snd (grpc_chttp2_begin_write t)) \<noteq> [])"
  by (simp_all add: grpc_chttp2_begin_write_def Let_def pre_loop_def)

lemma begin_write_outbuf:
  "outbuf (snd (grpc_chttp2_begin_write t)) =
     outbuf t @ settings_frames t @ map RAW (qbuf t) @ loop_frames (pre_loop t) @
     transport_update_frames t"
  by (simp add: begin_write_eq write_transport_window_update_fields begin_write_loop_outbuf
      pre_loop_fields transport_update_frames_def begin_write_loop_announce)

lemma pass_frames_eq:
  "pass_frames t =
     settings_frames t @ map RAW (qbuf t) @ loop_frames (pre_loop t) @ transport_update_frames t"
  by (simp add: pass_frames_def emitted_def begin_write_outbuf)

lemma begin_write_fields:
  "t_outgoing_window (snd (grpc_chttp2_begin_write t)) = t_outgoing_window (begin_write_loop (pre_loop t))"
  "streams (snd (grpc_chttp2_begin_write t)) = streams (begin_write_loop (pre_loop t))"
  "writing (snd (grpc_chttp2_begin_write t)) = writing (begin_write_loop (pre_loop t))"
  "stalled_by_transport (snd (grpc_chttp2_begin_write t)) = stalled_by_transport (begin_write_loop (pre_loop t))"
  "writable (snd (grpc_chttp2_begin_write t)) = []"
  "is_client (snd (grpc_chttp2_begin_write t)) = is_client t"
  by (simp_all add: begin_write_eq write_transport_window_update_fields begin_write_loop_writable
      begin_write_loop_fixed pre_loop_fields)

lemma data_bytes_around:
  "data_bytes (settings_frames t) = 0" "data_bytes (map RAW q) = 0"
  "data_bytes (transport_update_frames t) = 0"
  "data_bytes_of x (settings_frames t) = 0" "data_bytes_of x (map RAW q) = 0"
  "data_bytes_of x (transport_update_frames t) = 0"
  by (simp_all add: data_bytes_def data_bytes_of_def settings_frames_def
      transport_update_frames_def comp_def)

lemma begin_write_windows:
  assumes "fits_window (t_outgoing_window t)" "\<forall>x. fits_window (outgoing_window (streams t x))"
  shows "t_outgoing_window (snd (grpc_chttp2_begin_write t)) =
           t_outgoing_window t - int (data_bytes (pass_frames t))"
    and "fits_window (t_outgoing_window (snd (grpc_chttp2_begin_write t)))"
    and "outgoing_window (streams (snd (grpc_chttp2_begin_write t)) x) =
           outgoing_window (streams t x) - int (data_bytes_of x (pass_frames t))"
    and "fits_window (outgoing_window (streams (snd (grpc_chttp2_begin_write t)) x))"
proof -
  have "fits_window (t_outgoing_window (pre_loop t))"
    "\<forall>x. fits_window (outgoing_window (streams (pre_loop t) x))"
    using assms by (simp_all add: pre_loop_fields pre_loop_stream)
  from begin_write_loop_windows [OF this]
  have l1: "t_outgoing_window (begin_write_loop (pre_loop t)) =
           t_outgoing_window (pre_loop t) - int (data_bytes (loop_frames (pre_loop t)))"
    and l2: "fits_window (t_outgoing_window (begin_write_loop (pre_loop t)))"
    and l3: "outgoing_window (streams (begin_write_loop (pre_loop t)) x) =
          outgoing_window (streams (pre_loop t) x) - int (data_bytes_of x (loop_frames (pre_loop t)))"
    and l4: "fits_window (outgoing_window (streams (begin_write_loop (pre_loop t)) x))"
    by blast+
  show "t_outgoing_window (snd (grpc_chttp2_begin_write t)) =
           t_outgoing_window t - int (data_bytes (pass_frames t))"
    using l1 by (simp add: begin_write_fields pass_frames_eq data_bytes_around pre_loop_fields)
  show "fits_window (t_outgoing_window (snd (grpc_chttp2_begin_write t)))"
    using l2 by (simp add: begin_write_fields)
  show "outgoing_window (streams (snd (grpc_chttp2_begin_write t)) x) =
           outgoing_window (streams t x) - int (data_bytes_of x (pass_frames t))"
    using l3 by (simp add: begin_write_fields pass_frames_eq data_bytes_around pre_loop_stream)
  show "fits_window (outgoing_window (streams (snd (grpc_chttp2_begin_write t)) x))"
    using l4 by (simp add: begin_write_fields)
qed

section \<open>The end of a pass, and runs of events\<close>

lemma end_write_loop_Nil: "writing t = [] \<Longrightarrow> end_write_loop error t = t"
  by (subst end_write_loop.simps) simp

lemma end_write_loop_Cons:
  "writing t = s # rest \<Longrightarrow>
   end_write_loop error t = end_write_loop error (finish_stream_write error (t\<lparr>writing := rest\<rparr>) s)"
  by (subst end_write_loop.simps) simp

lemma end_write_loop_rule:
  assumes "P t"
    and "\<And>e t s rest. P t \<Longrightarrow> writing t = s # rest \<Longrightarrow>
           P (finish_stream_write e (t\<lparr>writing := rest\<rparr>) s)"
  shows "P (end_write_loop error t)"
  using assms(1)
proof (induction error t rule: end_write_loop.induct)
  case (1 error t)
  show ?case
  proof (cases "writing t")
    case Nil
    then show ?thesis using "1.prems" by (simp add: end_write_loop_Nil)
  next
    case (Cons s rest)
    then show ?thesis
      using "1.IH" [OF Cons assms(2) [OF "1.prems" Cons]]
      by (simp add: end_write_loop_Cons [OF Cons])
  qed
qed

lemma finish_stream_write_fields:
  "t_outgoing_window (finish_stream_write error t s) = t_outgoing_window t"
  "is_client (finish_stream_write error t s) = is_client t"
  "max_frame_size (finish_stream_write error t s) = max_frame_size t"
  "send_state (streams (finish_stream_write error t s) x) = send_state (streams t x)"
  by (simp_all add: finish_stream_write_def Let_def split_def update_list_eq send_state_def
      grpc_chttp2_complete_closure_step_def grpc_chttp2_mark_stream_closed_def
      grpc_chttp2_leave_writing_lists_def GRPC_CHTTP2_STREAM_UNREF_def split: option.splits)

lemma end_write_fields:
  "t_outgoing_window (grpc_chttp2_end_write t error) = t_outgoing_window t"
  "is_client (grpc_chttp2_end_write t error) = is_client t"
  "max_frame_size (grpc_chttp2_end_write t error) = max_frame_size t"
  "send_state (streams (grpc_chttp2_end_write t error) x) = send_state (streams t x)"
proof -
  have "t_outgoing_window (end_write_loop error t) = t_outgoing_window t \<and>
        is_client (end_write_loop error t) = is_client t \<and>
        max_frame_size (end_write_loop error t) = max_frame_size t \<and>
        (\<forall>x. send_state (streams (end_write_loop error t) x) = send_state (streams t x))"
    by (rule end_write_loop_rule [where P = "\<lambda>u. t_outgoing_window u = t_outgoing_window t \<and>
        is_client u = is_client t \<and> max_frame_size u = max_frame_size t \<and>
        (\<forall>x. send_state (streams u x) = send_state (streams t x))"])
      (simp_all add: finish_stream_write_fields)
  then show "t_outgoing_window (grpc_chttp2_end_write t error) = t_outgoing_window t"
    "is_client (grpc_chttp2_end_write t error) = is_client t"
    "max_frame_size (grpc_chttp2_end_write t error) = max_frame_size t"
    "send_state (streams (grpc_chttp2_end_write t error) x) = send_state (streams t x)"
    by (simp_all add: grpc_chttp2_end_write_def)
qed

lemma send_state_fields:
  assumes "send_state a = send_state b"
  shows "sent_initial_metadata a = sent_initial_metadata b"
    "send_initial_metadata a = send_initial_metadata b"
    "announce_window a = announce_window b"
    "flow_controlled_buffer a = flow_controlled_buffer b"
    "outgoing_window a = outgoing_window b"
    "fetching_send_message a = fetching_send_message b"
    "send_trailing_metadata a = send_trailing_metadata b"
    "sent_trailing_metadata a = sent_trailing_metadata b"
  using assms by (simp_all add: send_state_def)

lemmas end_write_stream = send_state_fields [OF end_write_fields(4)]

lemmas become_writable_stream = same_but_refs [OF become_writable_fields(9)]

lemma run_append: "run (es @ es') t = run es' (run es t)"
  by (induction es arbitrary: t) simp_all

lemma wire_append: "wire (es @ es') t = wire es t @ wire es' (run es t)"
  by (induction es arbitrary: t) simp_all

lemma apply_event_windows:
  assumes "fits_window (t_outgoing_window t)" "\<forall>x. fits_window (outgoing_window (streams t x))"
    "credit_fits e t"
  shows "t_outgoing_window (apply_event e t) =
           t_outgoing_window t + int (credit_of e) - int (data_bytes (event_frames e t)) \<and>
         fits_window (t_outgoing_window (apply_event e t)) \<and>
         outgoing_window (streams (apply_event e t) x) =
           outgoing_window (streams t x) + int (credit_to x e) -
           int (data_bytes_of x (event_frames e t)) \<and>
         fits_window (outgoing_window (streams (apply_event e t) x))"
proof (cases e)
  case Begin_write
  then show ?thesis
    using begin_write_windows [OF assms(1,2)] by simp
next
  case (End_write error)
  then show ?thesis
    using assms by (simp add: end_write_fields end_write_stream data_bytes_def data_bytes_of_def)
next
  case (Credit_stream s n)
  have "fits_window (outgoing_window (streams t s))" using assms(2) by blast
  then have "s64 (outgoing_window (streams t s) + int n) = outgoing_window (streams t s) + int n"
    using assms(3) Credit_stream by (intro s64_id) (simp_all add: fits_window_def)
  then show ?thesis
    using assms Credit_stream
    by (simp add: credit_stream_def data_bytes_def data_bytes_of_def fits_window_def)
next
  case (Credit_transport n)
  have "s64 (t_outgoing_window t + int n) = t_outgoing_window t + int n"
    using assms(1,3) Credit_transport by (intro s64_id) (simp_all add: fits_window_def)
  then show ?thesis
    using assms Credit_transport
    by (simp add: credit_transport_def data_bytes_def data_bytes_of_def fits_window_def)
next
  case (Become_writable s)
  then show ?thesis
    using assms
    by (simp add: become_writable_fields become_writable_stream data_bytes_def data_bytes_of_def)
qed

lemma credited_Cons [simp]:
  "credited (e # es) = credit_of e + credited es"
  "credited_to x (e # es) = credit_to x e + credited_to x es"
  "credited [] = 0" "credited_to x [] = 0"
  by (simp_all add: credited_def credited_to_def)

lemma data_bytes_Nil [simp]: "data_bytes [] = 0" "data_bytes_of x [] = 0"
  by (simp_all add: data_bytes_def data_bytes_of_def)

lemma run_windows:
  assumes "fits_window (t_outgoing_window t)" "\<forall>x. fits_window (outgoing_window (streams t x))"
    "credits_fit es t"
  shows "t_outgoing_window (run es t) =
           t_outgoing_window t + int (credited es) - int (data_bytes (wire es t)) \<and>
         fits_window (t_outgoing_window (run es t)) \<and>
         (\<forall>x. outgoing_window (streams (run es t) x) =
                outgoing_window (streams t x) + int (credited_to x es) -
                int (data_bytes_of x (wire es t)) \<and>
              fits_window (outgoing_window (streams (run es t) x)))"
  using assms
proof (induction es arbitrary: t)
  case Nil
  then show ?case by simp
next
  case (Cons e es)
  have cf: "credit_fits e t" "credits_fit es (apply_event e t)"
    using Cons.prems(3) by simp_all
  note st = apply_event_windows [OF Cons.prems(1,2) cf(1)]
  have f1: "fits_window (t_outgoing_window (apply_event e t))"
    "\<forall>x. fits_window (outgoing_window (streams (apply_event e t) x))"
    using st by blast+
  have e1: "t_outgoing_window (apply_event e t) =
      t_outgoing_window t + int (credit_of e) - int (data_bytes (event_frames e t))"
    "\<And>x. outgoing_window (streams (apply_event e t) x) =
      outgoing_window (streams t x) + int (credit_to x e) - int (data_bytes_of x (event_frames e t))"
    using st by blast+
  show ?case
    using Cons.IH [OF f1 cf(2)] unfolding e1 by (auto simp: algebra_simps)
qed

section \<open>The frames of a pass, read back\<close>

lemma initial_sent_in_append [simp]:
  "initial_sent_in x (a @ b) = (initial_sent_in x a \<or> initial_sent_in x b)"
  by (induction x a rule: initial_sent_in.induct) auto

lemma terminal_count_append [simp]:
  "terminal_count x (a @ b) = terminal_count x a + terminal_count x b"
  by (simp add: terminal_count_def)

lemma ordered_for_append:
  "ordered_for x sent (a @ b) =
     (ordered_for x sent a \<and> ordered_for x (sent \<or> initial_sent_in x a) b)"
  by (induction x sent a rule: ordered_for.induct) auto

lemma resets_ok_append: "resets_ok c rc a \<Longrightarrow> resets_ok c rc b \<Longrightarrow> resets_ok c rc (a @ b)"
proof (induction c rc a rule: resets_ok.induct)
  case (1 c rc)
  then show ?case by simp
next
  case (2 c rc f fs)
  show ?case
  proof (cases "terminal_stream f")
    case None
    then show ?thesis using 2 by simp
  next
    case (Some s)
    show ?thesis
    proof (cases "\<not> c \<and> \<not> rc s")
      case True
      with "2.prems"(1) Some obtain gs where fs: "fs = RST_STREAM s GRPC_CHTTP2_NO_ERROR # gs"
        and ok: "resets_ok c rc gs"
        by (cases fs) auto
      have "resets_ok c rc (gs @ b)"
        using "2.IH"(2) [OF Some True fs ok "2.prems"(2)] .
      then show ?thesis using Some True fs by simp
    next
      case False
      then have "resets_ok c rc fs" using "2.prems"(1) Some by auto
      then have "resets_ok c rc (fs @ b)"
        using "2.IH"(3) [OF Some False _ "2.prems"(2)] by simp
      then show ?thesis using Some False by auto
    qed
  qed
qed

subsection \<open>Metadata before body, in one iteration\<close>

lemma stream_after_sent_initial:
  "sent_initial_metadata (stream_after t str) = sent_im str"
  by (simp add: stream_after_def after_trailing_def after_body_def pre_body_fields)

lemma ordered_blocks:
  "ordered_for x sent (initial_metadata_frames s str)"
  "ordered_for x sent (window_update_frames s str)"
  "ordered_for x sent (body_frames s t str) = (if x = s \<and> sends t str then sent else True)"
  "ordered_for x sent (trailing_frames s t str) = (if x = s \<and> sends_trailing str then sent else True)"
  by (auto simp: initial_metadata_frames_def window_update_frames_def body_frames_def
      trailing_frames_def rst_frames_def sends_trailing_def split: option.splits)

lemma initial_sent_in_blocks:
  "initial_sent_in x (initial_metadata_frames s str) =
     (x = s \<and> \<not> sent_initial_metadata str \<and> send_initial_metadata str \<noteq> None)"
  "initial_sent_in x (window_update_frames s str) = False"
  "initial_sent_in x (body_frames s t str) = False"
  "initial_sent_in x (trailing_frames s t str) = False"
  by (auto simp: initial_metadata_frames_def window_update_frames_def body_frames_def
      trailing_frames_def rst_frames_def split: option.splits)

lemma initial_sent_in_stream_frames:
  "initial_sent_in x (stream_frames s t str) =
     (x = s \<and> \<not> sent_initial_metadata str \<and> send_initial_metadata str \<noteq> None)"
  by (simp add: stream_frames_def initial_sent_in_blocks)

lemma stream_frames_ordered:
  "ordered_for x (sent_initial_metadata (streams t x)) (stream_frames s t (streams t s))"
  by (simp add: stream_frames_def ordered_for_append ordered_blocks initial_sent_in_blocks
      sent_im_def)

lemma process_stream_sent_initial:
  "sent_initial_metadata (streams (process_stream t s) x) =
     (sent_initial_metadata (streams t x) \<or> initial_sent_in x (stream_frames s t (streams t s)))"
proof (cases "x = s")
  case True
  obtain r where "streams (process_stream t s) s = (stream_after t (streams t s))\<lparr>refs := r\<rparr>"
    using process_stream_self by blast
  then show ?thesis
    using True by (auto simp: stream_after_sent_initial initial_sent_in_stream_frames sent_im_def)
next
  case False
  then show ?thesis
    by (simp add: process_stream_others initial_sent_in_stream_frames)
qed

lemma loop_frames_induct [case_names stop step]:
  assumes "\<And>t. writable t = [] \<Longrightarrow> Q t [] t"
    and "\<And>t s rest fs t'. writable t = s # rest \<Longrightarrow>
           Q (process_stream (t\<lparr>writable := rest\<rparr>) s) fs t' \<Longrightarrow>
           Q t (stream_frames s t (streams t s) @ fs) t'"
  shows "Q t (loop_frames t) (begin_write_loop t)"
proof (induction t rule: begin_write_loop.induct)
  case (1 t)
  show ?case
  proof (cases "writable t")
    case Nil
    then show ?thesis using assms(1) by (simp add: loop_frames_Nil begin_write_loop_Nil)
  next
    case (Cons s rest)
    show ?thesis
      using assms(2) [OF Cons "1.IH" [OF Cons]]
      by (simp add: loop_frames_Cons [OF Cons] begin_write_loop_Cons [OF Cons])
  qed
qed

lemma popped_streams: "streams (t\<lparr>writable := rest\<rparr>) = streams t"
  by simp

lemma begin_write_loop_ordered:
  "ordered_for x (sent_initial_metadata (streams t x)) (loop_frames t) \<and>
   sent_initial_metadata (streams (begin_write_loop t) x) =
     (sent_initial_metadata (streams t x) \<or> initial_sent_in x (loop_frames t))"
proof (induction rule: loop_frames_induct)
  case (stop t)
  then show ?case by simp
next
  case (step t s rest fs t')
  have "sent_initial_metadata (streams (process_stream (t\<lparr>writable := rest\<rparr>) s) x) =
      (sent_initial_metadata (streams t x) \<or> initial_sent_in x (stream_frames s t (streams t s)))"
    using process_stream_sent_initial [of "t\<lparr>writable := rest\<rparr>" s x] by simp
  with step(2) show ?case
    using stream_frames_ordered [of x t s] by (auto simp: ordered_for_append)
qed

lemma ordered_around:
  "ordered_for x sent (settings_frames t)" "ordered_for x sent (map RAW q)"
  "ordered_for x sent (transport_update_frames t)"
  "initial_sent_in x (settings_frames t) = False" "initial_sent_in x (map RAW q) = False"
  "initial_sent_in x (transport_update_frames t) = False"
  by (induction q) (simp_all add: settings_frames_def transport_update_frames_def)

lemma begin_write_ordered:
  "ordered_for x (sent_initial_metadata (streams t x)) (pass_frames t)"
  "sent_initial_metadata (streams (snd (grpc_chttp2_begin_write t)) x) =
     (sent_initial_metadata (streams t x) \<or> initial_sent_in x (pass_frames t))"
  using begin_write_loop_ordered [of x "pre_loop t"]
  by (simp_all add: pass_frames_eq ordered_for_append ordered_around begin_write_fields
      pre_loop_stream)

subsection \<open>The terminal frame\<close>

lemma terminal_count_Nil [simp]: "terminal_count x [] = 0"
  by (simp add: terminal_count_def)

lemma terminal_blocks:
  "terminal_count x (initial_metadata_frames s str) = 0"
  "terminal_count x (window_update_frames s str) = 0"
  "terminal_count x (body_frames s t str) =
     (if x = s \<and> sends t str \<and> is_last_frame t str then 1 else 0)"
  "terminal_count x (trailing_frames s t str) = (if x = s \<and> sends_trailing str then 1 else 0)"
  by (auto simp: terminal_count_def initial_metadata_frames_def window_update_frames_def
      body_frames_def trailing_frames_def rst_frames_def sends_trailing_def split: option.splits)

lemma after_body_pending:
  "(if sends t str \<and> is_last_frame t str then 1 else 0) + pending (after_body t str) = pending str"
  "sent_trailing_metadata (after_body t str) =
     (sent_trailing_metadata str \<or> (sends t str \<and> is_last_frame t str))"
  by (auto simp: after_body_def pending_def is_last_frame_def split: option.splits)

lemma after_trailing_pending:
  "(if sends_trailing str then 1 else 0) + pending (after_trailing str) = pending str"
  "sent_trailing_metadata (after_trailing str) = (sent_trailing_metadata str \<or> sends_trailing str)"
  by (auto simp: after_trailing_def pending_def sends_trailing_def)

lemma pre_body_pending: "pending (pre_body str) = pending str"
  by (simp add: pending_def pre_body_fields)

lemma after_body_pre_body_pending: "pending (after_body t (pre_body str)) = pending (after_body t str)"
  by (simp add: pending_def after_body_pre_body_fields)

lemma stream_frames_terminal:
  "terminal_count x (stream_frames s t str) =
     (if x = s then pending str - pending (stream_after t str) else 0)"
  "pending (stream_after t str) \<le> pending str"
  "sent_trailing_metadata (stream_after t str) =
     (sent_trailing_metadata str \<or> 0 < terminal_count s (stream_frames s t str))"
proof -
  have a: "(if sends t str \<and> is_last_frame t str then 1 else 0) +
        ((if sends_trailing (after_body t str) then 1 else 0) +
         pending (after_trailing (after_body t (pre_body str)))) = pending str"
    using after_body_pending(1) [of t str]
      after_trailing_pending(1) [of "after_body t (pre_body str)"]
    by (simp add: trailing_pre_body after_body_pre_body_pending)
  show "terminal_count x (stream_frames s t str) =
     (if x = s then pending str - pending (stream_after t str) else 0)"
    using a by (auto simp: stream_frames_def terminal_blocks stream_after_def pre_body_pending)
  show "pending (stream_after t str) \<le> pending str"
    using a by (simp add: stream_after_def pre_body_pending)
  show "sent_trailing_metadata (stream_after t str) =
     (sent_trailing_metadata str \<or> 0 < terminal_count s (stream_frames s t str))"
    by (auto simp: stream_frames_def terminal_blocks stream_after_def pre_body_fields
        after_trailing_pending(2) after_body_pre_body_fields trailing_pre_body
        after_body_pending(2) pre_body_locals)
qed

lemma refs_irrelevant [simp]:
  "pending (str\<lparr>refs := r\<rparr>) = pending str"
  by (simp add: pending_def)

lemma process_stream_terminal:
  "terminal_count x (stream_frames s t (streams t s)) + pending (streams (process_stream t s) x) =
     pending (streams t x)"
  "sent_trailing_metadata (streams (process_stream t s) x) =
     (sent_trailing_metadata (streams t x) \<or> 0 < terminal_count x (stream_frames s t (streams t s)))"
proof -
  obtain r where r: "streams (process_stream t s) s = (stream_after t (streams t s))\<lparr>refs := r\<rparr>"
    using process_stream_self by blast
  show "terminal_count x (stream_frames s t (streams t s)) + pending (streams (process_stream t s) x) =
     pending (streams t x)"
    using stream_frames_terminal(2) [of t "streams t s"]
    by (cases "x = s") (simp_all add: r stream_frames_terminal(1) process_stream_others)
  show "sent_trailing_metadata (streams (process_stream t s) x) =
     (sent_trailing_metadata (streams t x) \<or> 0 < terminal_count x (stream_frames s t (streams t s)))"
    using stream_frames_terminal(3) [of t "streams t s" s]
    by (cases "x = s") (simp_all add: r stream_frames_terminal(1) process_stream_others)
qed

lemma begin_write_loop_terminal:
  "terminal_count x (loop_frames t) + pending (streams (begin_write_loop t) x) =
     pending (streams t x) \<and>
   sent_trailing_metadata (streams (begin_write_loop t) x) =
     (sent_trailing_metadata (streams t x) \<or> 0 < terminal_count x (loop_frames t))"
proof (induction rule: loop_frames_induct)
  case (stop t)
  then show ?case by (simp add: terminal_count_def)
next
  case (step t s rest fs t')
  show ?case
    using step(2) process_stream_terminal [where x = x and s = s and t = "t\<lparr>writable := rest\<rparr>"]
    by auto
qed

lemma terminal_around:
  "terminal_count x (settings_frames t) = 0" "terminal_count x (map RAW q) = 0"
  "terminal_count x (transport_update_frames t) = 0"
  by (induction q) (simp_all add: terminal_count_def settings_frames_def transport_update_frames_def)

lemma begin_write_terminal:
  "terminal_count x (pass_frames t) + pending (streams (snd (grpc_chttp2_begin_write t)) x) =
     pending (streams t x)"
  "sent_trailing_metadata (streams (snd (grpc_chttp2_begin_write t)) x) =
     (sent_trailing_metadata (streams t x) \<or> 0 < terminal_count x (pass_frames t))"
  using begin_write_loop_terminal [of x "pre_loop t"]
  by (simp_all add: pass_frames_eq terminal_around begin_write_fields pre_loop_stream pending_def)

subsection \<open>The reset after the terminal frame\<close>

lemma resets_blocks:
  "resets_ok c rc (initial_metadata_frames s str)"
  "resets_ok c rc (window_update_frames s str)"
  "rc s = read_closed str \<Longrightarrow> resets_ok (is_client t) rc (body_frames s t str)"
  "rc s = read_closed str \<Longrightarrow> resets_ok (is_client t) rc (trailing_frames s t str)"
  by (auto simp: initial_metadata_frames_def window_update_frames_def body_frames_def
      trailing_frames_def rst_frames_def split: option.splits)

lemma stream_after_read_closed: "read_closed (stream_after t str) = read_closed str"
  by (simp add: stream_after_def after_trailing_def after_body_def pre_body_fields)

lemma after_body_read_closed: "read_closed (after_body t str) = read_closed str"
  by (simp add: after_body_def)

lemma stream_frames_resets:
  "rc s = read_closed str \<Longrightarrow> resets_ok (is_client t) rc (stream_frames s t str)"
  by (simp add: stream_frames_def resets_ok_append resets_blocks after_body_read_closed)

lemma process_stream_read_closed:
  "read_closed (streams (process_stream t s) x) = read_closed (streams t x)"
proof -
  obtain r where r: "streams (process_stream t s) s = (stream_after t (streams t s))\<lparr>refs := r\<rparr>"
    using process_stream_self by blast
  show ?thesis
    by (cases "x = s") (simp_all add: r stream_after_read_closed process_stream_others)
qed

lemma begin_write_loop_resets:
  "resets_ok (is_client t) (\<lambda>x. read_closed (streams t x)) (loop_frames t) \<and>
   (\<forall>x. read_closed (streams (begin_write_loop t) x) = read_closed (streams t x))"
proof (induction rule: loop_frames_induct)
  case (stop t)
  then show ?case by simp
next
  case (step t s rest fs t')
  have "resets_ok (is_client t) (\<lambda>x. read_closed (streams t x)) (stream_frames s t (streams t s))"
    by (rule stream_frames_resets) simp
  then show ?case
    using step(2) by (simp add: process_stream_read_closed process_stream_fixed resets_ok_append)
qed

lemma resets_around:
  "resets_ok c rc (settings_frames t)" "resets_ok c rc (map RAW q)"
  "resets_ok c rc (transport_update_frames t)"
  by (induction q) (simp_all add: settings_frames_def transport_update_frames_def)

lemma pre_loop_read_closed:
  "(\<lambda>x. read_closed (streams (pre_loop t) x)) = (\<lambda>x. read_closed (streams t x))"
  by (simp add: pre_loop_stream)

lemma begin_write_resets:
  "resets_ok (is_client t) (\<lambda>x. read_closed (streams t x)) (pass_frames t)"
  using begin_write_loop_resets [of "pre_loop t"]
  by (simp add: pass_frames_eq resets_ok_append resets_around pre_loop_fields pre_loop_read_closed)

lemma credit_fields:
  "sent_initial_metadata (streams (credit_stream t s n) x) = sent_initial_metadata (streams t x)"
  "send_trailing_metadata (streams (credit_stream t s n) x) = send_trailing_metadata (streams t x)"
  "sent_trailing_metadata (streams (credit_stream t s n) x) = sent_trailing_metadata (streams t x)"
  "streams (credit_transport t n) = streams t"
  by (simp_all add: credit_stream_def credit_transport_def)

lemma apply_event_ordered:
  "ordered_for x (sent_initial_metadata (streams t x)) (event_frames e t) \<and>
   sent_initial_metadata (streams (apply_event e t) x) =
     (sent_initial_metadata (streams t x) \<or> initial_sent_in x (event_frames e t))"
  by (cases e)
    (simp_all add: begin_write_ordered end_write_stream credit_fields become_writable_stream)

lemma pending_cong:
  "send_trailing_metadata a = send_trailing_metadata b \<Longrightarrow> pending a = pending b"
  by (simp add: pending_def)

lemma apply_event_terminal:
  "terminal_count x (event_frames e t) + pending (streams (apply_event e t) x) =
     pending (streams t x) \<and>
   sent_trailing_metadata (streams (apply_event e t) x) =
     (sent_trailing_metadata (streams t x) \<or> 0 < terminal_count x (event_frames e t))"
proof (cases e)
  case Begin_write
  then show ?thesis by (simp add: begin_write_terminal)
next
  case (End_write error)
  then show ?thesis
    by (simp add: end_write_stream pending_cong [OF end_write_stream(7)])
next
  case (Credit_stream s n)
  then show ?thesis
    by (simp add: credit_fields pending_cong [OF credit_fields(2)])
next
  case (Credit_transport n)
  then show ?thesis by (simp add: credit_fields)
next
  case (Become_writable s)
  then show ?thesis
    by (simp add: become_writable_stream pending_cong [OF become_writable_stream(7)])
qed

lemma run_terminal:
  "terminal_count x (wire es t) + pending (streams (run es t) x) = pending (streams t x) \<and>
   sent_trailing_metadata (streams (run es t) x) =
     (sent_trailing_metadata (streams t x) \<or> 0 < terminal_count x (wire es t))"
proof (induction es arbitrary: t)
  case Nil
  then show ?case by simp
next
  case (Cons e es)
  show ?case
    using Cons.IH [of "apply_event e t"] apply_event_terminal [of x e t]
    by auto
qed

section \<open>The scenarios, evaluated\<close>

lemmas eval_defs = 
  process_stream_eq marks_writing_def stream_frames_def stream_after_def after_trailing_def
  after_body_def pre_body_def sends_trailing_def trailing_frames_def body_frames_def forks_def
  stalls_def sends_def rst_frames_def window_update_frames_def initial_metadata_frames_def
  sent_im_def is_last_frame_def is_last_data_frame_def send_bytes_def max_outgoing_def
  GPR_MIN_def u32_def u64_def s64_def grpc_metadata_batch_is_empty_def stream_list_add_def
  GRPC_CHTTP2_STREAM_UNREF_def GRPC_CHTTP2_NO_ERROR_def idle_transport_def idle_stream_def

lemmas around_defs = grpc_chttp2_begin_write_def Let_def unstall_def set_max_table_size_def
  flush_qbuf_def write_settings_def write_transport_window_update_def idle_transport_def

lemma begin_write_loop_once:
  assumes "writable t = [s]" "process_stream (t\<lparr>writable := []\<rparr>) s = t'" "writable t' = []"
  shows "begin_write_loop t = t'"
  by (simp add: begin_write_loop_Cons [OF assms(1)] assms(2) begin_write_loop_Nil [OF assms(3)])

lemma begin_write_loop_twice:
  assumes "writable t = [s]" "process_stream (t\<lparr>writable := []\<rparr>) s = t'" "writable t' = [s']"
    "process_stream (t'\<lparr>writable := []\<rparr>) s' = t''" "writable t'' = []"
  shows "begin_write_loop t = t''"
  by (simp add: begin_write_loop_Cons [OF assms(1)] assms(2) begin_write_loop_once [OF assms(3-5)])

lemma scenario1_loop: "begin_write_loop scenario1 = scenario1_done"
  by (rule begin_write_loop_once [where s = 3])
    (simp_all add: scenario1_def scenario1_done_def eval_defs)

lemma scenario1_pass: "grpc_chttp2_begin_write scenario1 = (True, scenario1_done)"
proof -
  have "writable scenario1_done = []" "outbuf scenario1_done \<noteq> []"
    "announce_incoming_window scenario1_done = 0"
    by (simp_all add: scenario1_done_def scenario1_def idle_transport_def)
  moreover have "unstall (set_max_table_size (flush_qbuf (write_settings scenario1))) = scenario1"
    by (simp add: scenario1_def around_defs)
  ultimately show ?thesis
    by (simp add: grpc_chttp2_begin_write_def Let_def scenario1_loop write_transport_window_update_def)
qed

lemma scenario4_loop: "begin_write_loop scenario4 = scenario4_done"
  by (rule begin_write_loop_once [where s = 3])
    (simp_all add: scenario4_def scenario4_done_def eval_defs)

lemma scenario2_loop: "begin_write_loop scenario2 = scenario2_done"
  by (rule begin_write_loop_once [where s = 3])
    (simp_all add: scenario2_def scenario2_done_def eval_defs)

lemma window_update_only_loop: "begin_write_loop window_update_only = window_update_only_done"
  by (rule begin_write_loop_once [where s = 3])
    (simp_all add: window_update_only_def window_update_only_done_def eval_defs)

lemma stream_window_limited_loop:
  "begin_write_loop stream_window_limited = stream_window_limited_done"
  by (rule begin_write_loop_twice [where s = 3 and s' = 3 and t' = stream_window_limited_sent])
    (simp_all add: stream_window_limited_def stream_window_limited_sent_def
      stream_window_limited_done_def eval_defs)

section \<open>The claims of the specification\<close>

text \<open>
  Claim C1. Start from windows that are not negative (and fit \<^verbatim>\<open>int64_t\<close>) and apply any
  sequence of write passes, pass ends, marks and window credits, each credit leaving its
  window inside \<^verbatim>\<open>int64_t\<close>. Then the transport window and every stream window are still
  not negative, and each window is its initial value plus the credits it received minus
  the DATA payload bytes that the passes emitted (for the stream window: on that stream),
  so every payload byte was debited exactly once at both levels.
\<close>

theorem windows_never_negative:
  assumes "fits_window (t_outgoing_window t)"
    and "\<forall>x. fits_window (outgoing_window (streams t x))"
    and "credits_fit es t"
  shows "0 \<le> t_outgoing_window (run es t) \<and>
         (\<forall>x. 0 \<le> outgoing_window (streams (run es t) x)) \<and>
         t_outgoing_window (run es t) =
           t_outgoing_window t + int (credited es) - int (data_bytes (wire es t)) \<and>
         (\<forall>x. outgoing_window (streams (run es t) x) =
                outgoing_window (streams t x) + int (credited_to x es) -
                int (data_bytes_of x (wire es t)))"
proof -
  note r = run_windows [OF assms]
  have a: "t_outgoing_window (run es t) =
      t_outgoing_window t + int (credited es) - int (data_bytes (wire es t))"
    and b: "fits_window (t_outgoing_window (run es t))"
    and c: "\<And>x. outgoing_window (streams (run es t) x) =
      outgoing_window (streams t x) + int (credited_to x es) - int (data_bytes_of x (wire es t))"
    and d: "\<And>x. fits_window (outgoing_window (streams (run es t) x))"
    using r by blast+
  have b': "0 \<le> t_outgoing_window (run es t)"
    using b by (simp add: fits_window_def)
  have d': "0 \<le> outgoing_window (streams (run es t) x)" for x
    using d [of x] by (simp add: fits_window_def)
  show ?thesis
    by (intro conjI allI) (rule b', rule d', rule a, rule c)
qed

text \<open>
  Claim C2. Over any sequence of write passes, pass ends, marks and credits, and for
  every stream: in what the passes emit, every DATA frame and every trailing-metadata
  HEADERS frame of the stream comes after an initial-metadata HEADERS frame of that
  stream, unless \<^verbatim>\<open>sent_initial_metadata\<close> was already true at the start; and the flag is
  true at the end exactly when it was true at the start or the initial-metadata frame was
  emitted on the way.
\<close>

theorem metadata_before_body:
  "ordered_for x (sent_initial_metadata (streams t x)) (wire es t) \<and>
   sent_initial_metadata (streams (run es t) x) =
     (sent_initial_metadata (streams t x) \<or> initial_sent_in x (wire es t))"
proof (induction es arbitrary: t)
  case Nil
  then show ?case by simp
next
  case (Cons e es)
  show ?case
    using Cons.IH [of "apply_event e t"] apply_event_ordered [of x t e]
    by (auto simp: ordered_for_append)
qed

text \<open>
  Claim C3. Take a stream whose trailing metadata is not queued any more once
  \<^verbatim>\<open>sent_trailing_metadata\<close> is true (as for a new stream). Over any sequence of write
  passes, pass ends, marks and credits, the passes emit at most one terminal frame for the
  stream (a DATA frame marked last or a HEADERS frame marked end of stream, so the two
  emission sites never both fire); the flag is true at the end exactly when it was true at
  the start or that frame was emitted; and once the flag is true, the trailing metadata is
  no longer queued and no later pass emits a terminal frame for the stream.
\<close>

theorem terminal_frame_at_most_once:
  assumes "sent_trailing_metadata (streams t x) \<longrightarrow> send_trailing_metadata (streams t x) = None"
  shows "terminal_count x (wire es t) \<le> 1 \<and>
         sent_trailing_metadata (streams (run es t) x) =
           (sent_trailing_metadata (streams t x) \<or> terminal_count x (wire es t) = 1) \<and>
         (sent_trailing_metadata (streams (run es t) x) \<longrightarrow>
            send_trailing_metadata (streams (run es t) x) = None \<and>
            terminal_count x (wire es' (run es t)) = 0)"
proof -
  note r = run_terminal [of x es t]
  have p: "pending (streams t x) \<le> 1" by (simp add: pending_def)
  have c: "terminal_count x (wire es t) \<le> 1" using r p by simp
  have n: "send_trailing_metadata (streams (run es t) x) = None"
    if "sent_trailing_metadata (streams (run es t) x)"
  proof (cases "sent_trailing_metadata (streams t x)")
    case True
    then have "pending (streams t x) = 0" using assms by (simp add: pending_def)
    then have "pending (streams (run es t) x) = 0" using r by simp
    then show ?thesis by (simp add: pending_def split: if_splits)
  next
    case False
    then have "0 < terminal_count x (wire es t)" using r that by simp
    then have "pending (streams (run es t) x) = 0" using r p by simp
    then show ?thesis by (simp add: pending_def split: if_splits)
  qed
  have z: "terminal_count x (wire es' (run es t)) = 0"
    if "sent_trailing_metadata (streams (run es t) x)"
  proof -
    have "pending (streams (run es t) x) = 0" using n [OF that] by (simp add: pending_def)
    then show ?thesis using run_terminal [of x es' "run es t"] by simp
  qed
  show ?thesis using c r n z by auto
qed

text \<open>
  Claim C4. \<^verbatim>\<open>update_list\<close> advances \<^verbatim>\<open>flow_controlled_bytes_written\<close> by the bytes of the
  pass and then fires, with the outcome of the pass, exactly the callbacks whose
  \<^verbatim>\<open>call_at_byte\<close> is at most the new total, each once and in list order, and puts them
  on the free pool; the others are kept on the list (in reverse order). A second drain
  fires exactly the kept callbacks whose threshold its own total has reached, so a kept
  callback fires at the first later drain that reaches its threshold.
\<close>

theorem update_list_drains:
  "(case update_list (t, str) n1 e1 of
     (t1, s1) \<Rightarrow>
       flow_controlled_bytes_written s1 = s64 (flow_controlled_bytes_written str + n1) \<and>
       completed t1 =
         completed t @
         fired_with e1 (filter (due (flow_controlled_bytes_written s1)) (on_write_finished_cbs str)) \<and>
       write_cb_pool t1 =
         rev (filter (due (flow_controlled_bytes_written s1)) (on_write_finished_cbs str)) @
         write_cb_pool t \<and>
       on_write_finished_cbs s1 =
         rev (filter (\<lambda>cb. \<not> due (flow_controlled_bytes_written s1) cb)
                (on_write_finished_cbs str)) \<and>
       (case update_list (t1, s1) n2 e2 of
          (t2, s2) \<Rightarrow>
            flow_controlled_bytes_written s2 = s64 (flow_controlled_bytes_written s1 + n2) \<and>
            completed t2 =
              completed t1 @
              fired_with e2
                (rev (filter (\<lambda>cb. \<not> due (flow_controlled_bytes_written s1) cb \<and>
                                     due (flow_controlled_bytes_written s2) cb)
                        (on_write_finished_cbs str))) \<and>
            on_write_finished_cbs s2 =
              filter (\<lambda>cb. \<not> due (flow_controlled_bytes_written s1) cb \<and>
                            \<not> due (flow_controlled_bytes_written s2) cb)
                (on_write_finished_cbs str)))"
  by (simp add: update_list_eq Let_def rev_filter [symmetric])

end
